theory Spec2Isabelle
  imports Complex_Main "HOL-Library.Log_Nat"
begin

section \<open>Shared data representations\<close>

text \<open>
  A JavaScript string is a sequence of UTF-16 code units: \<open>length\<close>, \<open>slice\<close>,
  \<open>endsWith\<close> and the regular expressions of the lookup pipeline all count code units.
  Cache keys and dictionary words are therefore lists of code units. The empty string is
  the only falsy string.
\<close>

type_synonym ustring = "nat list"

text \<open>
  A JavaScript \<open>Map\<close> iterates in insertion order; \<open>set\<close> on a key that is present
  replaces the value in place, on a new key it appends; \<open>delete\<close> removes the key.
\<close>

fun Map_set :: "'k \<Rightarrow> 'a \<Rightarrow> ('k \<times> 'a) list \<Rightarrow> ('k \<times> 'a) list" where
  "Map_set k v [] = [(k, v)]"
| "Map_set k v (p # ps) = (if fst p = k then (k, v) # ps else p # Map_set k v ps)"

definition Map_delete :: "'k \<Rightarrow> ('k \<times> 'a) list \<Rightarrow> ('k \<times> 'a) list" where
  "Map_delete k m = filter (\<lambda>p. fst p \<noteq> k) m"

definition Map_has :: "'k \<Rightarrow> ('k \<times> 'a) list \<Rightarrow> bool" where
  "Map_has k m = (map_of m k \<noteq> None)"

text \<open>
  A JavaScript number is an IEEE 754 double. A finite double is kept as the rational it
  denotes, and every arithmetic operation of the program is the exact operation followed
  by \<open>fl\<close>, the rounding to the nearest double (ties to the even significand;
  53-bit significands, least exponent -1022, subnormals below). Results of magnitude
  \<open>2^1024\<close> and more, which the program would turn into \<open>Infinity\<close>, are not
  rounded away here; the percentages and sizes below stay far under that. Counters are
  natural numbers, which is what the program's counters are below \<open>2^53\<close>.
  \<open>Math.round\<close> returns the nearest integer, halves going up.
\<close>

definition pow2 :: "int \<Rightarrow> rat" where
  "pow2 k = (if 0 \<le> k then 2 ^ nat k else 1 / 2 ^ nat (- k))"

text \<open>\<open>ilog2 x\<close> is the integer \<open>e\<close> with \<open>2^e \<le> x < 2^(e+1)\<close>, for \<open>x > 0\<close>.\<close>

definition ilog2 :: "rat \<Rightarrow> int" where
  "ilog2 x =
     (let (p, q) = quotient_of x; d = bitlen p - bitlen q
      in if pow2 d \<le> x then d else d - 1)"

definition round_half_even :: "rat \<Rightarrow> int" where
  "round_half_even x =
     (let f = \<lfloor>x\<rfloor>; r = x - of_int f
      in if r < 1 / 2 then f else if 1 / 2 < r then f + 1 else if even f then f else f + 1)"

definition fl :: "rat \<Rightarrow> rat" where
  "fl x =
     (if x = 0 then 0
      else (let a = \<bar>x\<bar>; e = max (ilog2 a) (- 1022); ulp = pow2 (e - 52)
            in sgn x * of_int (round_half_even (a / ulp)) * ulp))"

definition Math_round :: "rat \<Rightarrow> int" where
  "Math_round x = \<lfloor>x + 1 / 2\<rfloor>"

datatype jsnum = Finite rat | Infinity | NaN

section \<open>EnhancedLRUCache (enhanced-cache.js)\<close>

text \<open>
  Times are \<open>Date.now()\<close> readings in milliseconds, passed to each operation as
  \<open>now\<close>. The hit rate is a double, computed as the program computes it. The
  latency samples of \<open>get\<close> (\<open>performance.now()\<close>) with their average, and the
  notification of the optional performance monitor, are left out: no operation of the store
  reads them back and none of them can fail. \<open>stats.size\<close> is the field \<open>size_s\<close>
  and \<open>item.value\<close> the field \<open>val\<close>.
\<close>

record 'v item =
  val :: 'v
  expiry :: nat
  created :: nat
  accessed :: nat

record stats =
  hits :: nat
  misses :: nat
  evictions :: nat
  size_s :: nat
  hitRate :: rat

record 'v lru =
  maxSize :: nat
  ttl :: nat
  cache :: "(ustring \<times> 'v item) list"
  accessOrder :: "(ustring \<times> nat) list"
  stats :: stats

definition new_lru :: "nat \<Rightarrow> nat \<Rightarrow> 'v lru" where
  "new_lru maxSize0 ttl0 =
     \<lparr>maxSize = maxSize0, ttl = ttl0, cache = [], accessOrder = [],
      stats = \<lparr>hits = 0, misses = 0, evictions = 0, size_s = 0, hitRate = 0\<rparr>\<rparr>"

definition isValid :: "nat \<Rightarrow> 'v item \<Rightarrow> bool" where
  "isValid now it = (now < expiry it)"

definition updateHitRate :: "stats \<Rightarrow> stats" where
  "updateHitRate s =
     (let total = hits s + misses s
      in s\<lparr>hitRate := (if total > 0 then fl (fl (of_nat (hits s) / of_nat total) * 100) else 0)\<rparr>)"

definition lru_get :: "nat \<Rightarrow> ustring \<Rightarrow> 'v lru \<Rightarrow> 'v option \<times> 'v lru" where
  "lru_get now key c =
     (case map_of (cache c) key of
        Some it \<Rightarrow>
          if isValid now it
          then (Some (val it),
                c\<lparr>stats := updateHitRate ((stats c)\<lparr>hits := hits (stats c) + 1\<rparr>),
                  accessOrder := Map_set key now (accessOrder c)\<rparr>)
          else (None,
                c\<lparr>cache := Map_delete key (cache c),
                  accessOrder := Map_delete key (accessOrder c),
                  stats := updateHitRate ((stats c)\<lparr>misses := misses (stats c) + 1\<rparr>)\<rparr>)
      | None \<Rightarrow>
          (None, c\<lparr>stats := updateHitRate ((stats c)\<lparr>misses := misses (stats c) + 1\<rparr>)\<rparr>))"

text \<open>
  The scan of \<open>evictLRU\<close>: \<open>oldestTime\<close> starts at \<open>Infinity\<close> (here \<open>None\<close>) and an
  entry replaces the current oldest only when its time is strictly smaller.
\<close>

fun oldest :: "(ustring \<times> nat) list \<Rightarrow> (ustring \<times> nat) option \<Rightarrow> (ustring \<times> nat) option" where
  "oldest [] best = best"
| "oldest ((k, t) # xs) best =
     oldest xs (case best of
                  None \<Rightarrow> Some (k, t)
                | Some (bk, bt) \<Rightarrow> if t < bt then Some (k, t) else Some (bk, bt))"

definition evictLRU :: "'v lru \<Rightarrow> 'v lru" where
  "evictLRU c =
     (if accessOrder c = [] then c
      else case oldest (accessOrder c) None of
             None \<Rightarrow> c
           | Some (oldestKey, oldestTime) \<Rightarrow>
               if oldestKey = [] then c
               else (let cache' = Map_delete oldestKey (cache c)
                     in c\<lparr>cache := cache',
                          accessOrder := Map_delete oldestKey (accessOrder c),
                          stats := (stats c)\<lparr>evictions := evictions (stats c) + 1,
                                              size_s := length cache'\<rparr>\<rparr>))"

definition lru_set :: "nat \<Rightarrow> ustring \<Rightarrow> 'v \<Rightarrow> nat option \<Rightarrow> 'v lru \<Rightarrow> 'v lru" where
  "lru_set now key v customTTL c =
     (let ttl' = (case customTTL of None \<Rightarrow> ttl c | Some t \<Rightarrow> if t = 0 then ttl c else t);
          expiry' = now + ttl';
          c1 = (if length (cache c) \<ge> maxSize c \<and> \<not> Map_has key (cache c)
                then evictLRU c else c);
          cache' = Map_set key \<lparr>val = v, expiry = expiry', created = now, accessed = now\<rparr> (cache c1)
      in c1\<lparr>cache := cache',
             accessOrder := Map_set key now (accessOrder c1),
             stats := (stats c1)\<lparr>size_s := length cache'\<rparr>\<rparr>)"

definition cleanup :: "nat \<Rightarrow> 'v lru \<Rightarrow> nat \<times> 'v lru" where
  "cleanup now c =
     (let expired = map fst (filter (\<lambda>(k, it). now \<ge> expiry it) (cache c));
          cache' = filter (\<lambda>(k, it). \<not> now \<ge> expiry it) (cache c)
      in (length expired,
          c\<lparr>cache := cache',
            accessOrder := filter (\<lambda>(k, t). k \<notin> set expired) (accessOrder c),
            stats := (stats c)\<lparr>size_s := length cache'\<rparr>\<rparr>))"

definition clear :: "'v lru \<Rightarrow> 'v lru" where
  "clear c = c\<lparr>cache := [], accessOrder := [], stats := (stats c)\<lparr>size_s := 0\<rparr>\<rparr>"

definition has :: "nat \<Rightarrow> ustring \<Rightarrow> 'v lru \<Rightarrow> bool" where
  "has now key c = (case map_of (cache c) key of None \<Rightarrow> False | Some it \<Rightarrow> isValid now it)"

definition lru_delete :: "ustring \<Rightarrow> 'v lru \<Rightarrow> bool \<times> 'v lru" where
  "lru_delete key c =
     (let cache' = Map_delete key (cache c)
      in (Map_has key (cache c),
          c\<lparr>cache := cache',
            accessOrder := Map_delete key (accessOrder c),
            stats := (stats c)\<lparr>size_s := length cache'\<rparr>\<rparr>))"

fun preload :: "nat \<Rightarrow> (ustring \<times> 'v) list \<Rightarrow> 'v lru \<Rightarrow> nat \<times> 'v lru" where
  "preload now [] c = (0, c)"
| "preload now ((key, v) # entries) c =
     (if \<not> has now key c
      then (let (loaded, c') = preload now entries (lru_set now key v None c) in (loaded + 1, c'))
      else preload now entries c)"

record 'v exported =
  e_key :: ustring
  e_value :: 'v
  e_expiry :: nat
  e_created :: nat

fun lru_import_loop :: "nat \<Rightarrow> 'v exported list \<Rightarrow> 'v lru \<Rightarrow> nat \<times> 'v lru" where
  "lru_import_loop now [] c = (0, c)"
| "lru_import_loop now (d # data) c =
     (if e_expiry d > now
      then (let c' = c\<lparr>cache := Map_set (e_key d)
                                  \<lparr>val = e_value d, expiry = e_expiry d,
                                   created = e_created d, accessed = now\<rparr> (cache c),
                        accessOrder := Map_set (e_key d) now (accessOrder c)\<rparr>;
                (imported, c'') = lru_import_loop now data c'
            in (imported + 1, c''))
      else lru_import_loop now data c)"

definition lru_import :: "nat \<Rightarrow> 'v exported list \<Rightarrow> 'v lru \<Rightarrow> nat \<times> 'v lru" where
  "lru_import now data c =
     (let (imported, c') = lru_import_loop now data c
      in (imported, c'\<lparr>stats := (stats c')\<lparr>size_s := length (cache c')\<rparr>\<rparr>))"

fun delete_keys :: "ustring list \<Rightarrow> 'v lru \<Rightarrow> 'v lru" where
  "delete_keys [] c = c"
| "delete_keys (k # ks) c = delete_keys ks (snd (lru_delete k c))"

text \<open>
  \<open>optimize\<close>: \<open>targetFillRate\<close> is the number the caller wrote (0.8 by default); the
  program holds its double, \<open>fl targetFillRate\<close>, and floors the double product
  \<open>maxSize * targetFillRate\<close>. \<open>Array.prototype.sort\<close> is stable, as \<open>sort_key\<close>
  is. The loop runs \<open>min toRemove sortedEntries.length\<close> times and counts every
  iteration.
\<close>

definition optimize :: "rat \<Rightarrow> 'v lru \<Rightarrow> nat \<times> 'v lru" where
  "optimize targetFillRate c =
     (let targetSize = \<lfloor>fl (of_nat (maxSize c) * fl targetFillRate)\<rfloor>
      in if int (length (cache c)) \<le> targetSize then (0, c)
         else (let sortedEntries = sort_key snd (accessOrder c);
                   toRemove = nat (int (length (cache c)) - targetSize);
                   victims = take toRemove (map fst sortedEntries)
               in (length victims, delete_keys victims c)))"

text \<open>
  \<open>estimateMemoryUsage\<close> adds, for every entry, the length of \<open>JSON.stringify(key)\<close>,
  the length of \<open>JSON.stringify(item.value)\<close> and 50. \<open>JSON.stringify\<close> is a
  parameter: on a string key it always returns a string; on a value it may return
  \<open>undefined\<close> (an \<open>undefined\<close> value, a function, a symbol) or throw (a cycle, a
  BigInt), and then the read of \<open>.length\<close> or the call itself raises a \<open>TypeError\<close>
  (\<open>None\<close>).
\<close>

record 'v json =
  key_length :: "ustring \<Rightarrow> nat"
  value_length :: "'v \<Rightarrow> nat option"

datatype js_error = TypeError

fun estimate_loop :: "'v json \<Rightarrow> (ustring \<times> 'v item) list \<Rightarrow> nat \<Rightarrow> js_error + nat" where
  "estimate_loop js [] totalSize = Inr totalSize"
| "estimate_loop js ((key, it) # rest) totalSize =
     (case value_length js (val it) of
        None \<Rightarrow> Inl TypeError
      | Some n \<Rightarrow> estimate_loop js rest (totalSize + key_length js key + n + 50))"

definition round2 :: "rat \<Rightarrow> rat" where
  "round2 x = fl (of_int (Math_round (fl (x * 100))) / 100)"

record memoryUsage =
  bytes :: nat
  kb :: rat
  mb :: rat

definition estimateMemoryUsage :: "'v json \<Rightarrow> 'v lru \<Rightarrow> js_error + memoryUsage" where
  "estimateMemoryUsage js c =
     (case estimate_loop js (cache c) 0 of
        Inl e \<Rightarrow> Inl e
      | Inr totalSize \<Rightarrow>
          Inr \<lparr>bytes = totalSize,
               kb = round2 (fl (of_nat totalSize / 1024)),
               mb = round2 (fl (fl (of_nat totalSize / 1024) / 1024))\<rparr>)"

text \<open>
  \<open>getStats\<close>: the counters, the hit rate rounded to two decimals
  (\<open>Math.round(x * 100) / 100\<close>, in doubles), the memory estimate, and the fill rate
  \<open>(size / maxSize) * 100\<close>, which is \<open>NaN\<close> or \<open>Infinity\<close> for a capacity of 0.
  The call throws when the memory estimate does.
\<close>

record reported =
  r_hits :: nat
  r_misses :: nat
  r_evictions :: nat
  r_size :: nat
  r_hitRate :: rat
  r_memoryUsage :: memoryUsage
  r_fillRate :: jsnum

definition fillRate :: "nat \<Rightarrow> nat \<Rightarrow> jsnum" where
  "fillRate size0 maxSize0 =
     (if maxSize0 = 0 then (if size0 = 0 then NaN else Infinity)
      else Finite (fl (fl (of_nat size0 / of_nat maxSize0) * 100)))"

definition getStats :: "'v json \<Rightarrow> 'v lru \<Rightarrow> js_error + reported" where
  "getStats js c =
     (case estimateMemoryUsage js c of
        Inl e \<Rightarrow> Inl e
      | Inr usage \<Rightarrow>
          Inr \<lparr>r_hits = hits (stats c), r_misses = misses (stats c),
               r_evictions = evictions (stats c), r_size = size_s (stats c),
               r_hitRate = round2 (hitRate (stats c)),
               r_memoryUsage = usage,
               r_fillRate = fillRate (size_s (stats c)) (maxSize c)\<rparr>)"

text \<open>A trace of calls on one store, each with the clock reading at the call.\<close>

datatype 'v cache_op =
    Get ustring
  | Set ustring 'v "nat option"
  | Has ustring
  | Delete ustring
  | Clear
  | Cleanup
  | Preload "(ustring \<times> 'v) list"
  | Import "'v exported list"
  | Optimize rat

fun apply_op :: "nat \<times> 'v cache_op \<Rightarrow> 'v lru \<Rightarrow> 'v lru" where
  "apply_op (now, Get k) c = snd (lru_get now k c)"
| "apply_op (now, Set k v customTTL) c = lru_set now k v customTTL c"
| "apply_op (now, Has k) c = c"
| "apply_op (now, Delete k) c = snd (lru_delete k c)"
| "apply_op (now, Clear) c = clear c"
| "apply_op (now, Cleanup) c = snd (cleanup now c)"
| "apply_op (now, Preload entries) c = snd (preload now entries c)"
| "apply_op (now, Import data) c = snd (lru_import now data c)"
| "apply_op (now, Optimize r) c = snd (optimize r c)"

fun run_ops :: "(nat \<times> 'v cache_op) list \<Rightarrow> 'v lru \<Rightarrow> 'v lru" where
  "run_ops [] c = c"
| "run_ops (x # xs) c = run_ops xs (apply_op x c)"

fun is_get :: "nat \<times> 'v cache_op \<Rightarrow> bool" where
  "is_get (now, Get k) = True"
| "is_get (now, other) = False"

section \<open>MultiLevelCache (enhanced-cache.js)\<close>

record 'v mlc =
  definitionCache :: "'v lru"
  analysisCache :: "'v lru"
  imageCache :: "'v lru"
  frequentWordsCache :: "'v lru"

definition new_mlc :: "'v mlc" where
  "new_mlc =
     \<lparr>definitionCache = new_lru 1000 3600000, analysisCache = new_lru 500 1800000,
      imageCache = new_lru 100 7200000, frequentWordsCache = new_lru 2000 86400000\<rparr>"

text \<open>
  \<open>getCache\<close> returns a reference to one of the four stores. The model splits the
  reference into the store read (\<open>getCache\<close>) and the write-back of the mutated store
  through the same \<open>switch\<close> (\<open>putCache\<close>).
\<close>

definition getCache :: "'v mlc \<Rightarrow> string \<Rightarrow> 'v lru" where
  "getCache m type =
     (if type = ''definition'' then definitionCache m
      else if type = ''analysis'' then analysisCache m
      else if type = ''image'' then imageCache m
      else if type = ''frequent'' then frequentWordsCache m
      else definitionCache m)"

definition putCache :: "'v mlc \<Rightarrow> string \<Rightarrow> 'v lru \<Rightarrow> 'v mlc" where
  "putCache m type c =
     (if type = ''definition'' then m\<lparr>definitionCache := c\<rparr>
      else if type = ''analysis'' then m\<lparr>analysisCache := c\<rparr>
      else if type = ''image'' then m\<lparr>imageCache := c\<rparr>
      else if type = ''frequent'' then m\<lparr>frequentWordsCache := c\<rparr>
      else m\<lparr>definitionCache := c\<rparr>)"

definition mlc_get :: "nat \<Rightarrow> ustring \<Rightarrow> string \<Rightarrow> 'v mlc \<Rightarrow> 'v option \<times> 'v mlc" where
  "mlc_get now key type m =
     (let (r, c') = lru_get now key (getCache m type) in (r, putCache m type c'))"

definition mlc_set :: "nat \<Rightarrow> ustring \<Rightarrow> 'v \<Rightarrow> string \<Rightarrow> nat option \<Rightarrow> 'v mlc \<Rightarrow> 'v mlc" where
  "mlc_set now key v type customTTL m =
     putCache m type (lru_set now key v customTTL (getCache m type))"

section \<open>RequestOptimizer: circuit breaker (request-optimizer.js)\<close>

datatype cb_state = CLOSED | OPEN | HALF_OPEN

text \<open>
  The options object of \<open>createCircuitBreaker\<close>: \<open>None\<close> is a key that is absent.
  The configuration is \<open>{failureThreshold: options.failureThreshold || 5, ..., ...options}\<close>:
  the spread writes every key that is present over the defaulted value, so a present key
  wins even when it is 0.
\<close>

record cb_options =
  o_failureThreshold :: "nat option"
  o_resetTimeout :: "nat option"
  o_monitoringPeriod :: "nat option"

record cb_config =
  failureThreshold :: nat
  resetTimeout :: nat
  monitoringPeriod :: nat

record breaker =
  state :: cb_state
  failures :: nat
  lastFailureTime :: "nat option"
  nextAttempt :: "nat option"
  config :: cb_config

definition spread_over :: "nat \<Rightarrow> nat option \<Rightarrow> nat" where
  "spread_over defaulted opt = (case opt of None \<Rightarrow> defaulted | Some v \<Rightarrow> v)"

definition or_default :: "nat option \<Rightarrow> nat \<Rightarrow> nat" where
  "or_default opt d = (case opt of None \<Rightarrow> d | Some v \<Rightarrow> if v = 0 then d else v)"

definition new_breaker :: "cb_options \<Rightarrow> breaker" where
  "new_breaker options =
     \<lparr>state = CLOSED, failures = 0, lastFailureTime = None, nextAttempt = None,
      config = \<lparr>failureThreshold =
                  spread_over (or_default (o_failureThreshold options) 5) (o_failureThreshold options),
                resetTimeout =
                  spread_over (or_default (o_resetTimeout options) 30000) (o_resetTimeout options),
                monitoringPeriod =
                  spread_over (or_default (o_monitoringPeriod options) 60000)
                    (o_monitoringPeriod options)\<rparr>\<rparr>"

definition createCircuitBreaker ::
  "string \<Rightarrow> cb_options \<Rightarrow> (string \<rightharpoonup> breaker) \<Rightarrow> (string \<rightharpoonup> breaker)" where
  "createCircuitBreaker serviceName options cbs = cbs(serviceName \<mapsto> new_breaker options)"

text \<open>
  \<open>executeWithCircuitBreaker\<close> awaits the guarded operation, so a call has a part that
  runs before the operation (\<open>cb_before\<close>: the state check, which either short-circuits
  or lets the call through, moving \<open>OPEN\<close> to \<open>HALF_OPEN\<close>) and a part that runs after
  it settles (\<open>cb_after_success\<close>, \<open>cb_after_failure\<close>). The comparison
  \<open>now < breaker.nextAttempt\<close> reads a \<open>null\<close> \<open>nextAttempt\<close> as 0.
  The operation and the fallback are given by their outcomes: \<open>Inl e\<close> throws \<open>e\<close>,
  \<open>Inr r\<close> returns \<open>r\<close>; \<open>None\<close> is the \<open>null\<close> fallback.
\<close>

datatype 'e cb_error = NotFound string | Unavailable string | Thrown 'e

datatype call = OperationCalled | FallbackCalled

definition short_circuits :: "nat \<Rightarrow> breaker \<Rightarrow> bool" where
  "short_circuits now b =
     (state b = OPEN \<and> now < (case nextAttempt b of None \<Rightarrow> 0 | Some t \<Rightarrow> t))"

definition cb_before :: "nat \<Rightarrow> breaker \<Rightarrow> breaker" where
  "cb_before now b =
     (if state b = OPEN
      then (if now < (case nextAttempt b of None \<Rightarrow> 0 | Some t \<Rightarrow> t) then b
            else b\<lparr>state := HALF_OPEN\<rparr>)
      else b)"

definition cb_after_success :: "breaker \<Rightarrow> breaker" where
  "cb_after_success b = (if state b = HALF_OPEN then b\<lparr>state := CLOSED, failures := 0\<rparr> else b)"

definition cb_after_failure :: "nat \<Rightarrow> breaker \<Rightarrow> breaker" where
  "cb_after_failure now b =
     (let b1 = b\<lparr>failures := failures b + 1, lastFailureTime := Some now\<rparr>
      in if failures b1 \<ge> failureThreshold (config b1)
         then b1\<lparr>state := OPEN, nextAttempt := Some (now + resetTimeout (config b1))\<rparr>
         else b1)"

definition call_fallback :: "'e + 'a \<Rightarrow> 'e cb_error + 'a" where
  "call_fallback f = (case f of Inl e \<Rightarrow> Inl (Thrown e) | Inr r \<Rightarrow> Inr r)"

definition breaker_execute ::
  "string \<Rightarrow> nat \<Rightarrow> 'e + 'a \<Rightarrow> ('e + 'a) option \<Rightarrow> breaker
     \<Rightarrow> ('e cb_error + 'a) \<times> call list \<times> breaker" where
  "breaker_execute serviceName now operation fallback b =
     (if short_circuits now b
      then (case fallback of
              Some f \<Rightarrow> (call_fallback f, [FallbackCalled], b)
            | None \<Rightarrow> (Inl (Unavailable serviceName), [], b))
      else (let b1 = cb_before now b
            in case operation of
                 Inr result \<Rightarrow> (Inr result, [OperationCalled], cb_after_success b1)
               | Inl error \<Rightarrow>
                   (let b2 = cb_after_failure now b1
                    in case fallback of
                         Some f \<Rightarrow> (call_fallback f, [OperationCalled, FallbackCalled], b2)
                       | None \<Rightarrow> (Inl (Thrown error), [OperationCalled], b2))))"

definition executeWithCircuitBreaker ::
  "string \<Rightarrow> nat \<Rightarrow> 'e + 'a \<Rightarrow> ('e + 'a) option \<Rightarrow> (string \<rightharpoonup> breaker)
     \<Rightarrow> ('e cb_error + 'a) \<times> call list \<times> (string \<rightharpoonup> breaker)" where
  "executeWithCircuitBreaker serviceName now operation fallback cbs =
     (case cbs serviceName of
        None \<Rightarrow> (Inl (NotFound serviceName), [], cbs)
      | Some b \<Rightarrow>
          (let (r, calls, b') = breaker_execute serviceName now operation fallback b
           in (r, calls, cbs(serviceName \<mapsto> b'))))"

text \<open>
  A sequence of calls on one breaker, one after the other: each call is the clock
  reading at its start and whether the guarded operation succeeds (if it is attempted).
  The fallback does not touch the breaker.
\<close>

definition cb_call :: "nat \<times> bool \<Rightarrow> breaker \<Rightarrow> breaker" where
  "cb_call c b =
     snd (snd (breaker_execute ''svc'' (fst c) (if snd c then Inr () else Inl ())
                 (None :: (unit + unit) option) b))"

fun cb_run :: "(nat \<times> bool) list \<Rightarrow> breaker \<Rightarrow> breaker" where
  "cb_run [] b = b"
| "cb_run (c # cs) b = cb_run cs (cb_call c b)"

section \<open>BatchProcessor (request-optimizer.js)\<close>












section \<open>RequestOptimizer: request deduplication (request-optimizer.js)\<close>

text \<open>
  A request carries its method (\<open>req.method\<close>), its path and the two body fields that
  \<open>extractCriticalParams\<close> reads (\<open>None\<close> is \<open>undefined\<close>, which
  \<open>JSON.stringify\<close> drops from the object). The key string
  \<open>method:path:JSON\<close> is kept as the triple it is built from.
\<close>

record 'j request =
  rid :: nat
  http_method :: string
  path :: string
  body_text :: "'j option"
  body_word :: "'j option"

datatype 'j critical = TextParam "'j option" | WordParam "'j option" | NoParams

definition extractCriticalParams :: "'j request \<Rightarrow> 'j critical" where
  "extractCriticalParams req =
     (if path req = ''/api/full-analysis'' then TextParam (body_text req)
      else if path req = ''/api/debug-lookup'' then WordParam (body_word req)
      else NoParams)"

definition generateRequestKey :: "'j request \<Rightarrow> string \<times> string \<times> 'j critical" where
  "generateRequestKey req = (http_method req, path req, extractCriticalParams req)"

text \<open>
  The middleware runs to completion on each arriving request (JavaScript runs one
  callback at a time), so concurrent requests are an interleaving of three events: a
  request arrives (\<open>dedup_middleware\<close>); the route handler of a request that was passed
  on finishes and ends its response (\<open>dedup_end\<close>, through the wrapped \<open>res.end\<close>); the
  periodic sweep runs (\<open>dedup_sweep\<close>). The promise created for the first request of a
  key is named by that request's id. Its \<open>resolve\<close> and \<open>reject\<close> are stored on the
  request object as \<open>req.resolve\<close> and \<open>req.reject\<close>, and no code of the repository
  calls either, so no event settles a promise; \<open>waiting\<close> holds the requests whose
  \<open>then\<close>/\<open>catch\<close> callbacks are registered on a promise.
\<close>

record ('j, 'resp) dedup =
  requestQueue :: "((string \<times> string \<times> 'j critical) \<times> (nat \<times> nat)) list"
  waiting :: "(nat \<times> nat) list"
  passed_on :: "nat list"
  responses :: "(nat \<times> 'resp) list"

definition new_dedup :: "('j, 'resp) dedup" where
  "new_dedup = \<lparr>requestQueue = [], waiting = [], passed_on = [], responses = []\<rparr>"

definition dedup_middleware :: "nat \<Rightarrow> 'j request \<Rightarrow> ('j, 'resp) dedup \<Rightarrow> ('j, 'resp) dedup" where
  "dedup_middleware now req s =
     (let key = generateRequestKey req
      in case map_of (requestQueue s) key of
           Some (promise, timestamp) \<Rightarrow> s\<lparr>waiting := waiting s @ [(rid req, promise)]\<rparr>
         | None \<Rightarrow>
             s\<lparr>requestQueue := Map_set key (rid req, now) (requestQueue s),
               passed_on := passed_on s @ [rid req]\<rparr>)"

definition dedup_end :: "'j request \<Rightarrow> 'resp \<Rightarrow> ('j, 'resp) dedup \<Rightarrow> ('j, 'resp) dedup" where
  "dedup_end req resp s =
     (if rid req \<in> set (passed_on s)
      then s\<lparr>requestQueue := Map_delete (generateRequestKey req) (requestQueue s),
             responses := responses s @ [(rid req, resp)]\<rparr>
      else s)"

definition dedup_sweep :: "nat \<Rightarrow> ('j, 'resp) dedup \<Rightarrow> ('j, 'resp) dedup" where
  "dedup_sweep now s =
     s\<lparr>requestQueue := filter (\<lambda>(key, promise, timestamp). \<not> int now - int timestamp > 300000)
                          (requestQueue s)\<rparr>"

datatype ('j, 'resp) dedup_event =
    Arrives nat "'j request"
  | Ends "'j request" 'resp
  | Sweep nat

fun dedup_step :: "('j, 'resp) dedup_event \<Rightarrow> ('j, 'resp) dedup \<Rightarrow> ('j, 'resp) dedup" where
  "dedup_step (Arrives now req) s = dedup_middleware now req s"
| "dedup_step (Ends req resp) s = dedup_end req resp s"
| "dedup_step (Sweep now) s = dedup_sweep now s"

fun dedup_run :: "('j, 'resp) dedup_event list \<Rightarrow> ('j, 'resp) dedup \<Rightarrow> ('j, 'resp) dedup" where
  "dedup_run [] s = s"
| "dedup_run (e # es) s = dedup_run es (dedup_step e s)"

section \<open>Variant lookup pipeline (enhanced_server.js)\<close>

subsection \<open>The variant tables\<close>

text \<open>
  \<open>comprehensiveVariantMappings\<close>, entry by entry in the order of the source, every
  string as its UTF-16 code units (hiragana is U+3041 to U+309F, so U+3066 is the
  hiragana \<open>te\<close>). The keys of the table are pairwise different.
\<close>

definition comprehensiveVariantMappings :: "(ustring \<times> ustring list) list" where
  "comprehensiveVariantMappings =
   [
    ([0x306A, 0x3093, 0x3066],
     [[0x306A, 0x3093, 0x3066], [0x4F55, 0x3066], [0x306A, 0x3093], [0x3066]]),
    ([0x306A, 0x3093, 0x3067],
     [[0x306A, 0x3093, 0x3067], [0x4F55, 0x3067], [0x306A, 0x3093], [0x3067]]),
    ([0x306A, 0x3093, 0x304B],
     [[0x306A, 0x3093, 0x304B], [0x4F55, 0x304B], [0x306A, 0x3093], [0x304B]]),
    ([0x306A, 0x3093, 0x3060, 0x304B],
     [[0x306A, 0x3093, 0x3060, 0x304B], [0x4F55, 0x3060, 0x304B], [0x306A, 0x3093],
      [0x3060, 0x304B]]),
    ([0x306A, 0x3093, 0x3068],
     [[0x306A, 0x3093, 0x3068], [0x4F55, 0x3068], [0x306A, 0x3093], [0x3068]]),
    ([0x306A, 0x3093, 0x306E],
     [[0x306A, 0x3093, 0x306E], [0x4F55, 0x306E], [0x306A, 0x3093], [0x306E]]),
    ([0x3069, 0x3093, 0x306A],
     [[0x3069, 0x3093, 0x306A], [0x3069, 0x306E, 0x69D8, 0x306A], [0x3069, 0x3093], [0x306A]]),
    ([0x305D, 0x3093, 0x306A],
     [[0x305D, 0x3093, 0x306A], [0x305D, 0x306E, 0x69D8, 0x306A], [0x305D, 0x3093], [0x306A]]),
    ([0x3053, 0x3093, 0x306A],
     [[0x3053, 0x3093, 0x306A], [0x3053, 0x306E, 0x69D8, 0x306A], [0x3053, 0x3093], [0x306A]]),
    ([0x3042, 0x3093, 0x306A],
     [[0x3042, 0x3093, 0x306A], [0x3042, 0x306E, 0x69D8, 0x306A], [0x3042, 0x3093], [0x306A]]),
    ([0x3044, 0x308D, 0x3093, 0x306A],
     [[0x3044, 0x308D, 0x3093, 0x306A], [0x8272, 0x3093, 0x306A], [0x8272, 0x3005, 0x306A],
      [0x3044, 0x308D], [0x3093, 0x306A]]),
    ([0x3084, 0x3063, 0x3071, 0x308A],
     [[0x3084, 0x3063, 0x3071, 0x308A], [0x3084, 0x306F, 0x308A], [0x3084, 0x3063, 0x3071],
      [0x308A]]),
    ([0x3061, 0x3087, 0x3063, 0x3068],
     [[0x3061, 0x3087, 0x3063, 0x3068], [0x4E00, 0x5BF8], [0x3061, 0x3087, 0x3063], [0x3068]]),
    ([0x305A, 0x3063, 0x3068],
     [[0x305A, 0x3063, 0x3068], [0x305A, 0x30FC], [0x3063, 0x3068]]),
    ([0x304D, 0x3063, 0x3068],
     [[0x304D, 0x3063, 0x3068], [0x5C79, 0x5EA6], [0x304D, 0x30FC], [0x3063, 0x3068]]),
    ([0x3082, 0x3063, 0x3068],
     [[0x3082, 0x3063, 0x3068], [0x3082, 0x30FC], [0x3063, 0x3068]]),
    ([0x305F, 0x304F, 0x3055, 0x3093],
     [[0x6CA2, 0x5C71], [0x305F, 0x304F, 0x3055, 0x3093], [0x305F, 0x304F], [0x3055, 0x3093]]),
    ([0x3044, 0x3063, 0x3071, 0x3044],
     [[0x4E00, 0x676F], [0x3044, 0x3063, 0x3071, 0x3044], [0x3044, 0x3063], [0x3071, 0x3044]]),
    ([0x3059, 0x3053, 0x3057],
     [[0x5C11, 0x3057], [0x3059, 0x3053, 0x3057], [0x3059, 0x3053], [0x3057]]),
    ([0x304B, 0x306A, 0x308A],
     [[0x53EF, 0x6210, 0x308A], [0x304B, 0x306A, 0x308A], [0x304B, 0x306A], [0x308A]]),
    ([0x53D6, 0x308A, 0x9664, 0x304F],
     [[0x53D6, 0x308A, 0x9664, 0x304F], [0x53D6, 0x308A, 0x9664, 0x3044, 0x3066],
      [0x53D6, 0x308A, 0x9664, 0x3044], [0x3066], [0x53D6, 0x308A, 0x9664, 0x304B],
      [0x53D6, 0x308A, 0x9664, 0x3051]]),
    ([0x53D6, 0x308A, 0x9664, 0x3044, 0x3066],
     [[0x53D6, 0x308A, 0x9664, 0x3044, 0x3066], [0x53D6, 0x308A, 0x9664, 0x304F],
      [0x53D6, 0x308A, 0x9664, 0x3044], [0x3066]]),
    ([0x3084, 0x308B],
     [[0x3084, 0x308B], [0x9063, 0x308B], [0x3084, 0x3063], [0x3084, 0x3089], [0x3084, 0x308A],
      [0x3084, 0x308C]]),
    ([0x3059, 0x308B],
     [[0x3059, 0x308B], [0x70BA, 0x308B], [0x3057], [0x3055], [0x305B], [0x3059, 0x308C]]),
    ([0x3044, 0x308B],
     [[0x3044, 0x308B], [0x5C45, 0x308B], [0x3044], [0x3044, 0x308C], [0x3044, 0x3089]]),
    ([0x3042, 0x308B],
     [[0x3042, 0x308B], [0x6709, 0x308B], [0x5728, 0x308B], [0x3042, 0x3063], [0x3042, 0x3089],
      [0x3042, 0x308A], [0x3042, 0x308C]]),
    ([0x304F, 0x308B],
     [[0x6765, 0x308B], [0x304F, 0x308B], [0x304D], [0x3053], [0x304F, 0x308C]]),
    ([0x3044, 0x304F],
     [[0x884C, 0x304F], [0x3044, 0x304F], [0x3044, 0x3063], [0x3044, 0x304B], [0x3044, 0x3051]]),
    ([0x304D, 0x308C, 0x3044],
     [[0x7DBA, 0x9E97], [0x304D, 0x308C, 0x3044], [0x5947, 0x9E97], [0x304D, 0x308C]]),
    ([0x3059, 0x3054, 0x3044],
     [[0x51C4, 0x3044], [0x3059, 0x3054, 0x3044], [0x3059, 0x3054], [0x3059, 0x3052, 0x30FC]]),
    ([0x4E0B, 0x54C1],
     [[0x4E0B, 0x54C1], [0x3052, 0x3072, 0x3093]]),
    ([0x88C5, 0x5099],
     [[0x88C5, 0x5099], [0x305D, 0x3046, 0x3073]]),
    ([0x3082],
     [[0x3082]]),
    ([0x3059, 0x3050],
     [[0x3059, 0x3050], [0x76F4, 0x3050]]),
    ([0x30EA, 0x30F3, 0x30AF],
     [[0x30EA, 0x30F3, 0x30AF], [0x006C, 0x0069, 0x006E, 0x006B]]),
    ([0x7E26, 0x66F8, 0x304D],
     [[0x7E26, 0x66F8, 0x304D], [0x305F, 0x3066, 0x304C, 0x304D]]),
    ([0x524D, 0x63D0],
     [[0x524D, 0x63D0], [0x305C, 0x3093, 0x3066, 0x3044]]),
    ([0x6A2A, 0x66F8, 0x304D],
     [[0x6A2A, 0x66F8, 0x304D], [0x3088, 0x3053, 0x304C, 0x304D]]),
    ([0x4E0D, 0x80FD],
     [[0x4E0D, 0x80FD], [0x3075, 0x306E, 0x3046]]),
    ([0x66F8, 0x4F53],
     [[0x66F8, 0x4F53], [0x3057, 0x3087, 0x305F, 0x3044]]),
    ([0x5B58, 0x5728],
     [[0x5B58, 0x5728], [0x305D, 0x3093, 0x3056, 0x3044]]),
    ([0x6F22, 0x5B57],
     [[0x6F22, 0x5B57], [0x304B, 0x3093, 0x3058]]),
    ([0x4EEE, 0x540D],
     [[0x4EEE, 0x540D], [0x304B, 0x306A]]),
    ([0x7B46, 0x9806],
     [[0x7B46, 0x9806], [0x3072, 0x3064, 0x3058, 0x3085, 0x3093]]),
    ([0x8868, 0x8A18],
     [[0x8868, 0x8A18], [0x3072, 0x3087, 0x3046, 0x304D]]),
    ([0x884C, 0x3046],
     [[0x884C, 0x3046], [0x304A, 0x3053, 0x306A, 0x3046], [0x884C, 0x3063], [0x884C, 0x3044],
      [0x884C, 0x3048]]),
    ([0x884C, 0x3063, 0x3066],
     [[0x884C, 0x3063, 0x3066], [0x304A, 0x3053, 0x306A, 0x3063, 0x3066], [0x884C, 0x3046]]),
    ([0x884C, 0x3063, 0x3066, 0x3044, 0x305F],
     [[0x884C, 0x3063, 0x3066, 0x3044, 0x305F],
      [0x304A, 0x3053, 0x306A, 0x3063, 0x3066, 0x3044, 0x305F], [0x884C, 0x3046]]),
    ([0x5023, 0x3044],
     [[0x5023, 0x3044], [0x306A, 0x3089, 0x3044], [0x5023, 0x3046]]),
    ([0x9032, 0x3081, 0x3066],
     [[0x9032, 0x3081, 0x3066], [0x3059, 0x3059, 0x3081, 0x3066], [0x9032, 0x3081, 0x308B]]),
    ([0x3068, 0x3057, 0x3066],
     [[0x3068, 0x3057, 0x3066], [0x3068], [0x3057, 0x3066]]),
    ([0x304A, 0x308A],
     [[0x304A, 0x308A], [0x5C45, 0x308A], [0x5C45, 0x308B]])
   ]"

text \<open>
  A JavaScript \<open>Set\<close> keeps insertion order and \<open>add\<close> of a member changes nothing.
\<close>

definition Set_add :: "'a \<Rightarrow> 'a list \<Rightarrow> 'a list" where
  "Set_add x xs = (if x \<in> set xs then xs else xs @ [x])"

definition add_all :: "'a list \<Rightarrow> 'a list \<Rightarrow> 'a list" where
  "add_all new xs = fold Set_add new xs"

text \<open>
  \<open>reverseVariantMappings\<close> is built once at start-up: for every entry of the table
  and every variant of it, the \<open>Set\<close> under that variant receives all the variants of
  the entry and then the base form. \<open>reverse_adds key\<close> is the sequence of values added
  under \<open>key\<close>, which is empty exactly when the map has no such key.
\<close>

definition reverse_adds :: "ustring \<Rightarrow> ustring list" where
  "reverse_adds key =
     concat (map (\<lambda>(base, variants).
                    concat (map (\<lambda>variant. if variant = key then variants @ [base] else [])
                              variants))
               comprehensiveVariantMappings)"

definition reverseVariantMappings :: "ustring \<Rightarrow> ustring list option" where
  "reverseVariantMappings key =
     (if reverse_adds key = [] then None else Some (add_all (reverse_adds key) []))"

subsection \<open>String operations\<close>

definition endsWith :: "ustring \<Rightarrow> ustring \<Rightarrow> bool" where
  "endsWith w suffix =
     (length suffix \<le> length w \<and> drop (length w - length suffix) w = suffix)"

definition startsWith :: "ustring \<Rightarrow> ustring \<Rightarrow> bool" where
  "startsWith w prefix = (take (length prefix) w = prefix)"

text \<open>\<open>slice_end w n\<close> is \<open>w.slice(0, -n)\<close> for \<open>n > 0\<close>.\<close>

definition slice_end :: "ustring \<Rightarrow> nat \<Rightarrow> ustring" where
  "slice_end w n = take (length w - n) w"

abbreviation (input) k_te :: nat where "k_te \<equiv> 0x3066"
abbreviation (input) k_de :: nat where "k_de \<equiv> 0x3067"
abbreviation (input) k_i :: nat where "k_i \<equiv> 0x3044"
abbreviation (input) k_ku :: nat where "k_ku \<equiv> 0x304F"
abbreviation (input) k_ru :: nat where "k_ru \<equiv> 0x308B"
abbreviation (input) k_ta :: nat where "k_ta \<equiv> 0x305F"
abbreviation (input) k_na :: nat where "k_na \<equiv> 0x306A"
abbreviation (input) k_ma :: nat where "k_ma \<equiv> 0x307E"
abbreviation (input) k_su :: nat where "k_su \<equiv> 0x3059"
abbreviation (input) k_ka :: nat where "k_ka \<equiv> 0x304B"
abbreviation (input) k_small_tsu :: nat where "k_small_tsu \<equiv> 0x3063"
abbreviation (input) k_ri :: nat where "k_ri \<equiv> 0x308A"
abbreviation (input) k_shi :: nat where "k_shi \<equiv> 0x3057"
abbreviation (input) k_mo :: nat where "k_mo \<equiv> 0x3082"
abbreviation (input) k_ha :: nat where "k_ha \<equiv> 0x306F"
abbreviation (input) k_ga :: nat where "k_ga \<equiv> 0x304C"
abbreviation (input) k_wo :: nat where "k_wo \<equiv> 0x3092"
abbreviation (input) k_ni :: nat where "k_ni \<equiv> 0x306B"
abbreviation (input) k_to :: nat where "k_to \<equiv> 0x3068"
abbreviation (input) k_ra :: nat where "k_ra \<equiv> 0x3089"
abbreviation (input) k_n :: nat where "k_n \<equiv> 0x3093"
abbreviation (input) kanji_nani :: nat where "kanji_nani \<equiv> 0x4F55"

text \<open>
  The regular expressions of the compound patterns have no flags: \<open>.\<close> is one code
  unit other than a line terminator, \<open>^\<close> and \<open>$\<close> are the two ends of the word, and
  \<open>.+\<close> is greedy. So \<open>/^(.+ri)(.+)$/\<close> splits after the last \<open>ri\<close> that has a code
  unit before it and one after it, and \<open>/^(.+)SUFFIX$/\<close> returns what is before the
  suffix when that is not empty.
\<close>

definition lineTerminator :: "nat \<Rightarrow> bool" where
  "lineTerminator c = (c = 0x0A \<or> c = 0x0D \<or> c = 0x2028 \<or> c = 0x2029)"

definition dots :: "ustring \<Rightarrow> bool" where
  "dots w = list_all (\<lambda>c. \<not> lineTerminator c) w"

definition match_ri :: "ustring \<Rightarrow> (ustring \<times> ustring) option" where
  "match_ri w =
     (if \<not> dots w then None
      else case filter (\<lambda>i. w ! i = k_ri) (rev [1..<length w - 1]) of
             [] \<Rightarrow> None
           | i # _ \<Rightarrow> Some (take (Suc i) w, drop (Suc i) w))"

definition match_before :: "ustring \<Rightarrow> ustring \<Rightarrow> ustring option" where
  "match_before suffix w =
     (if endsWith w suffix \<and> slice_end w (length suffix) \<noteq> [] \<and> dots (slice_end w (length suffix))
      then Some (slice_end w (length suffix)) else None)"

subsection \<open>generateComprehensiveVariants\<close>

text \<open>
  \<open>wanakana\<close> is an external package: its four functions used here are parameters.
\<close>

record wanakana =
  isHiragana :: "ustring \<Rightarrow> bool"
  isKatakana :: "ustring \<Rightarrow> bool"
  toKatakana :: "ustring \<Rightarrow> ustring"
  toHiragana :: "ustring \<Rightarrow> ustring"

definition direct_candidates :: "ustring \<Rightarrow> ustring list" where
  "direct_candidates word =
     (case map_of comprehensiveVariantMappings word of None \<Rightarrow> [] | Some variants \<Rightarrow> variants)
     @ (case reverseVariantMappings word of None \<Rightarrow> [] | Some variants \<Rightarrow> variants)"

definition kana_candidates :: "wanakana \<Rightarrow> ustring \<Rightarrow> ustring list" where
  "kana_candidates wk word =
     (if isHiragana wk word then [toKatakana wk word] else [])
     @ (if isKatakana wk word then [toHiragana wk word] else [])"

definition compound_candidates :: "ustring \<Rightarrow> ustring list" where
  "compound_candidates word =
     (case match_ri word of None \<Rightarrow> [] | Some (first, second) \<Rightarrow> [first, second])
     @ (case match_before [k_shi, k_te] word of None \<Rightarrow> [] | Some first \<Rightarrow> [first])
     @ (case match_before [k_i, k_te] word of None \<Rightarrow> [] | Some first \<Rightarrow> [first])
     @ (case match_before [k_small_tsu, k_te] word of None \<Rightarrow> [] | Some first \<Rightarrow> [first])"

definition inflection_candidates :: "ustring \<Rightarrow> ustring list" where
  "inflection_candidates word =
     (if length word > 2
      then (if endsWith word [k_te]
            then (let stem = slice_end word 1
                  in [stem @ [k_de], stem]
                     @ (if endsWith stem [k_i] then [slice_end stem 1 @ [k_ku]] else [])
                     @ map (\<lambda>ending. stem @ ending) [[k_ru], [k_ta], [k_na, k_i], [k_ma, k_su]])
            else [])
           @ (if endsWith word [k_de]
              then (let stem = slice_end word 1 in [stem @ [k_te], stem])
              else [])
           @ (if endsWith word [k_ta]
              then (let stem = slice_end word 1 in [stem @ [k_te], stem @ [k_ru], stem])
              else [])
           @ (if endsWith word [k_i] \<and> length word > 2
              then (let stem = slice_end word 1
                    in [stem @ [k_ku], stem @ [k_ka, k_small_tsu, k_ta], stem @ [k_ku, k_na, k_i]])
              else [])
           @ compound_candidates word
      else [])"

definition particleCombinations :: "ustring list" where
  "particleCombinations =
     [[k_mo], [k_ha], [k_ga], [k_wo], [k_ni], [k_de], [k_to], [k_ka, k_ra], [k_ma, k_de]]"

definition particle_candidates :: "ustring \<Rightarrow> ustring list" where
  "particle_candidates word =
     concat (map (\<lambda>particle.
                    (if endsWith word particle \<and> length word > length particle
                     then [slice_end word (length particle)] else [])
                    @ [word @ particle])
               particleCombinations)"

definition nan_candidates :: "ustring \<Rightarrow> ustring list" where
  "nan_candidates word =
     (if startsWith word [k_na, k_n]
      then (let suffix = drop 2 word
            in [kanji_nani # suffix, [k_na, k_n]] @ (if suffix \<noteq> [] then [suffix] else []))
      else [])"

definition nna_candidates :: "ustring \<Rightarrow> ustring list" where
  "nna_candidates word =
     (if endsWith word [k_n, k_na]
      then (let prefix = slice_end word 2 in [prefix @ [k_na], prefix, [k_n, k_na]])
      else [])"

text \<open>
  Every step of the function adds to the one \<open>Set\<close>, and what it adds depends on the
  word only, so the function is the \<open>Set\<close> holding the word, with the candidates of the
  six steps added in order, as an array with the empty strings filtered out.
\<close>

definition generateComprehensiveVariants :: "wanakana \<Rightarrow> ustring \<Rightarrow> ustring list" where
  "generateComprehensiveVariants wk word =
     filter (\<lambda>v. length v > 0)
       (add_all (direct_candidates word @ kana_candidates wk word @ inflection_candidates word
                 @ particle_candidates word @ nan_candidates word @ nna_candidates word)
          [word])"

subsection \<open>getDefinitionAdvanced\<close>

text \<open>
  A definition as the pipeline builds it. \<open>asc\<close> gives the code units of an ASCII
  literal.
\<close>

definition asc :: "string \<Rightarrow> ustring" where
  "asc s = map of_char s"

record sense =
  english_definitions :: "ustring list"
  parts_of_speech :: "ustring list"

datatype entry_ref = DbEntry nat | Named string

record searchInfo =
  originalQuery :: ustring
  foundVia :: ustring
  entryId :: entry_ref

record definition_rec =
  slug :: ustring
  japanese :: "(ustring option \<times> ustring option) list"
  senses :: "sense list"
  searchInfo :: searchInfo

definition particle_table :: "(ustring \<times> string list \<times> string \<times> string \<times> string) list" where
  "particle_table =
   [
    ([0x306F], [''topic marker particle'', ''as for'', ''regarding''],
      ''particle'', ''particle_handling'', ''particle_wa''),
    ([0x304C], [''subject marker particle'', ''nominative particle''],
      ''particle'', ''particle_handling'', ''particle_ga''),
    ([0x3092], [''direct object marker particle'', ''accusative particle''],
      ''particle'', ''particle_handling'', ''particle_wo''),
    ([0x306B], [''location/direction particle'', ''at'', ''in'', ''to''],
      ''particle'', ''particle_handling'', ''particle_ni''),
    ([0x3067], [''location/method particle'', ''at'', ''in'', ''with'', ''by''],
      ''particle'', ''particle_handling'', ''particle_de''),
    ([0x3068], [''conjunction particle'', ''and'', ''with''],
      ''particle'', ''particle_handling'', ''particle_to''),
    ([0x3082], [''inclusive particle'', ''also'', ''too'', ''even''],
      ''particle'', ''particle_handling'', ''particle_mo''),
    ([0x304B, 0x3089], [''from'', ''since'', ''because''],
      ''particle'', ''particle_handling'', ''particle_kara''),
    ([0x307E, 0x3067], [''until'', ''to'', ''up to''],
      ''particle'', ''particle_handling'', ''particle_made''),
    ([0x3002], [''period'', ''full stop''],
      ''punctuation'', ''punctuation_handling'', ''punct_period''),
    ([0x3001], [''comma''],
      ''punctuation'', ''punctuation_handling'', ''punct_comma''),
    ([0xFF1F], [''question mark''],
      ''punctuation'', ''punctuation_handling'', ''punct_question''),
    ([0xFF01], [''exclamation mark''],
      ''punctuation'', ''punctuation_handling'', ''punct_exclamation'')
   ]"

text \<open>
  \<open>particleDefinitions[word]\<close> is a property read on an object literal, so besides the
  thirteen keys it also finds the members that every object inherits from
  \<open>Object.prototype\<close>; such a member is truthy and is returned and cached as it is.
\<close>

datatype found = Definition definition_rec | Inherited ustring

definition object_prototype_members :: "string list" where
  "object_prototype_members =
     [''constructor'', ''__defineGetter__'', ''__defineSetter__'', ''hasOwnProperty'',
      ''__lookupGetter__'', ''__lookupSetter__'', ''isPrototypeOf'', ''propertyIsEnumerable'',
      ''toString'', ''valueOf'', ''__proto__'', ''toLocaleString'']"

definition particleDefinitions :: "ustring \<Rightarrow> found option" where
  "particleDefinitions word =
     (case map_of particle_table word of
        Some (glosses, pos, via, eid) \<Rightarrow>
          Some (Definition
            \<lparr>slug = word, japanese = [(Some word, Some word)],
             senses = [\<lparr>english_definitions = map asc glosses, parts_of_speech = [asc pos]\<rparr>],
             searchInfo = \<lparr>originalQuery = word, foundVia = asc via, entryId = Named eid\<rparr>\<rparr>)
      | None \<Rightarrow> if word \<in> set (map asc object_prototype_members) then Some (Inherited word) else None)"

text \<open>
  The dictionary store is read only; its three queries are parameters. \<open>Inl\<close> is a
  query that fails (the promise rejects). \<open>exact v\<close> is the entry id of the first row of
  the exact query for \<open>v\<close>; \<open>fuzzy w\<close> the rows (entry id and matched value) of the
  fuzzy query for \<open>w\<close>; \<open>entry i\<close> the row of the entry query, its senses already parsed
  and converted (\<open>None\<close>: the senses column is falsy; a \<open>JSON.parse\<close> that throws is a
  failing query, both end in the same \<open>catch\<close>). \<open>queries\<close> logs every query issued.
\<close>

record entryData =
  kanji_spelling :: "ustring option"
  reading :: "ustring option"
  ed_senses :: "sense list option"

record db =
  exact :: "ustring \<Rightarrow> string + nat option"
  fuzzy :: "ustring \<Rightarrow> string + (nat \<times> ustring) list"
  entry :: "nat \<Rightarrow> string + entryData option"

datatype query = ExactQuery ustring | FuzzyQuery ustring | EntryQuery nat

record pipeline =
  multiLevelCache :: "found option mlc"
  queries :: "query list"

text \<open>\<open>or_else a b\<close> is \<open>a || b\<close> for a string \<open>a\<close> that may be \<open>null\<close>.\<close>

definition or_else :: "ustring option \<Rightarrow> ustring \<Rightarrow> ustring" where
  "or_else a b = (case a of None \<Rightarrow> b | Some w \<Rightarrow> if w = [] then b else w)"

definition buildDefinitionFromEntry ::
  "db \<Rightarrow> nat \<Rightarrow> nat \<Rightarrow> ustring \<Rightarrow> ustring \<Rightarrow> pipeline \<Rightarrow> definition_rec option \<times> pipeline" where
  "buildDefinitionFromEntry d now entryId' originalWord matchedVariant s =
     (let s1 = s\<lparr>queries := queries s @ [EntryQuery entryId']\<rparr>
      in case entry d entryId' of
           Inl error \<Rightarrow> (None, s1)
         | Inr None \<Rightarrow> (None, s1)
         | Inr (Some entryData) \<Rightarrow>
             (case ed_senses entryData of
                None \<Rightarrow> (None, s1)
              | Some sensesArray \<Rightarrow>
                  (let result =
                         \<lparr>slug = or_else (kanji_spelling entryData)
                                   (or_else (reading entryData) originalWord),
                          japanese = [(kanji_spelling entryData, reading entryData)],
                          senses = filter (\<lambda>sense. length (english_definitions sense) > 0) sensesArray,
                          searchInfo = \<lparr>originalQuery = originalWord, foundVia = matchedVariant,
                                        entryId = DbEntry entryId'\<rparr>\<rparr>;
                       m1 = mlc_set now originalWord (Some (Definition result)) ''definition'' None
                              (multiLevelCache s1);
                       m2 = (if matchedVariant \<noteq> originalWord
                             then mlc_set now matchedVariant (Some (Definition result)) ''definition''
                                    None m1
                             else m1)
                   in (Some result, s1\<lparr>multiLevelCache := m2\<rparr>))))"

datatype tier_outcome = Hit definition_rec | Miss | DbError

fun exact_tier ::
  "db \<Rightarrow> nat \<Rightarrow> ustring \<Rightarrow> ustring list \<Rightarrow> pipeline \<Rightarrow> tier_outcome \<times> pipeline" where
  "exact_tier d now word [] s = (Miss, s)"
| "exact_tier d now word (variant # rest) s =
     (let s1 = s\<lparr>queries := queries s @ [ExactQuery variant]\<rparr>
      in case exact d variant of
           Inl error \<Rightarrow> (DbError, s1)
         | Inr None \<Rightarrow> exact_tier d now word rest s1
         | Inr (Some entry_id) \<Rightarrow>
             (case buildDefinitionFromEntry d now entry_id word variant s1 of
                (Some definition, s2) \<Rightarrow> (Hit definition, s2)
              | (None, s2) \<Rightarrow> exact_tier d now word rest s2))"

definition cache_absent :: "nat \<Rightarrow> ustring \<Rightarrow> pipeline \<Rightarrow> found option \<times> pipeline" where
  "cache_absent now word s =
     (None, s\<lparr>multiLevelCache := mlc_set now word None ''definition'' None (multiLevelCache s)\<rparr>)"

text \<open>
  \<open>now\<close> is the clock when the lookup starts and checks the cache, \<open>later\<close> the clock
  when it writes its result after the awaited queries. The cache returns \<open>item.value\<close>
  on a hit and \<open>null\<close> on a miss, and the lookup tests the returned value for
  truthiness: a cached \<open>null\<close> (\<open>Some None\<close>) and a miss (\<open>None\<close>) both continue.
\<close>

definition getDefinitionAdvanced ::
  "wanakana \<Rightarrow> db \<Rightarrow> nat \<Rightarrow> nat \<Rightarrow> ustring \<Rightarrow> pipeline \<Rightarrow> found option \<times> pipeline" where
  "getDefinitionAdvanced wk d now later word s =
     (let (cachedResult, m1) = mlc_get now word ''definition'' (multiLevelCache s);
          s1 = s\<lparr>multiLevelCache := m1\<rparr>
      in case cachedResult of
           Some (Some cached) \<Rightarrow> (Some cached, s1)
         | _ \<Rightarrow>
             (case particleDefinitions word of
                Some definition \<Rightarrow>
                  (Some definition,
                   s1\<lparr>multiLevelCache := mlc_set now word (Some definition) ''definition'' None m1\<rparr>)
              | None \<Rightarrow>
                  (let searchVariants = generateComprehensiveVariants wk word
                   in case exact_tier d later word (word # take 5 searchVariants) s1 of
                        (Hit definition, s2) \<Rightarrow> (Some (Definition definition), s2)
                      | (DbError, s2) \<Rightarrow> (None, s2)
                      | (Miss, s2) \<Rightarrow>
                          (let s3 = s2\<lparr>queries := queries s2 @ [FuzzyQuery word]\<rparr>
                           in case fuzzy d word of
                                Inl error \<Rightarrow> (None, s3)
                              | Inr [] \<Rightarrow> cache_absent later word s3
                              | Inr ((entry_id, matched_value) # _) \<Rightarrow>
                                  (case buildDefinitionFromEntry d later entry_id word matched_value s3 of
                                     (Some definition, s4) \<Rightarrow> (Some (Definition definition), s4)
                                   | (None, s4) \<Rightarrow> cache_absent later word s4)))))"

definition new_pipeline :: pipeline where
  "new_pipeline = \<lparr>multiLevelCache = new_mlc, queries = []\<rparr>"

section \<open>Scenarios and measures used in the results\<close>

text \<open>The counters that only \<open>get\<close> changes.\<close>

definition counters :: "'v lru \<Rightarrow> nat \<times> nat \<times> rat" where
  "counters c = (hits (stats c), misses (stats c), hitRate (stats c))"

definition percentage :: "nat \<Rightarrow> nat \<Rightarrow> rat" where
  "percentage h m = (if h + m > 0 then fl (fl (of_nat h / of_nat (h + m)) * 100) else 0)"

text \<open>
  The scenario of the specification on a store of capacity 2 and TTL 1000 ms:
  \<open>Set("a",1); Set("b",2); Get("a"); Set("c",3)\<close> at the clock readings \<open>t1\<close> to
  \<open>t4\<close>, then \<open>Get("b"); Get("a"); Get("c")\<close> at \<open>t5\<close> to \<open>t7\<close>.
\<close>

definition lru_scenario :: "nat \<Rightarrow> nat \<Rightarrow> nat \<Rightarrow> nat \<Rightarrow> nat lru" where
  "lru_scenario t1 t2 t3 t4 =
     lru_set t4 (asc ''c'') 3 None
       (snd (lru_get t3 (asc ''a'')
          (lru_set t2 (asc ''b'') 2 None
             (lru_set t1 (asc ''a'') 1 None (new_lru 2 1000)))))"

definition three_gets ::
  "nat \<Rightarrow> nat \<Rightarrow> nat \<Rightarrow> nat lru \<Rightarrow> nat option \<times> nat option \<times> nat option" where
  "three_gets t5 t6 t7 c =
     (let (rb, c1) = lru_get t5 (asc ''b'') c;
          (ra, c2) = lru_get t6 (asc ''a'') c1;
          (rc, c3) = lru_get t7 (asc ''c'') c2
      in (rb, ra, rc))"

text \<open>
  One \<open>set\<close> and one \<open>get\<close> of the same key; and a \<open>set\<close> followed by 23 reads that
  hit and 137 that miss. The \<open>JSON.stringify\<close> of the inputs: a quoted key, a one-digit
  value.
\<close>

definition one_hit :: "nat lru" where
  "one_hit = snd (lru_get 1 (asc ''a'') (lru_set 0 (asc ''a'') 7 None (new_lru 2 1000)))"

definition many_gets :: "(nat \<times> nat cache_op) list" where
  "many_gets =
     (0, Set (asc ''a'') 7 None) # replicate 23 (5, Get (asc ''a''))
       @ replicate 137 (5, Get (asc ''b''))"

definition plain_json :: "nat json" where
  "plain_json = \<lparr>key_length = (\<lambda>k. length k + 2), value_length = (\<lambda>v. Some 1)\<rparr>"

definition reported_hitRate :: "'v json \<Rightarrow> 'v lru \<Rightarrow> rat option" where
  "reported_hitRate js c = (case getStats js c of Inl e \<Rightarrow> None | Inr r \<Rightarrow> Some (r_hitRate r))"

text \<open>Two unexpired entries imported into an empty store of capacity 1.\<close>

definition imported_two :: "nat lru" where
  "imported_two =
     snd (lru_import 0
            [\<lparr>e_key = asc ''a'', e_value = 1, e_expiry = 10, e_created = 0\<rparr>,
             \<lparr>e_key = asc ''b'', e_value = 2, e_expiry = 10, e_created = 0\<rparr>]
            (new_lru 1 1000))"

text \<open>
  What holds of a breaker between two calls: it is never left \<open>HALF_OPEN\<close>, and while
  it is \<open>OPEN\<close> its failure counter has reached the threshold and \<open>nextAttempt\<close> is set.
\<close>

definition breaker_ok :: "breaker \<Rightarrow> bool" where
  "breaker_ok b =
     (case state b of
        CLOSED \<Rightarrow> True
      | OPEN \<Rightarrow> failureThreshold (config b) \<le> failures b \<and> nextAttempt b \<noteq> None
      | HALF_OPEN \<Rightarrow> False)"

text \<open>
  Two breakers used as concrete inputs: one with threshold 2 and reset timeout 100 ms,
  and the parser's breaker of the server (threshold 3, reset timeout 30000 ms).
\<close>

definition small_breaker :: breaker where
  "small_breaker =
     new_breaker \<lparr>o_failureThreshold = Some 2, o_resetTimeout = Some 100,
                  o_monitoringPeriod = None\<rparr>"

definition failure_then_success :: breaker where
  "failure_then_success = cb_run [(0, False), (1, True)] small_breaker"

definition parser_breakers :: "string \<rightharpoonup> breaker" where
  "parser_breakers =
     createCircuitBreaker ''parser''
       \<lparr>o_failureThreshold = Some 3, o_resetTimeout = Some 30000, o_monitoringPeriod = None\<rparr>
       Map.empty"

definition failed_call :: "nat \<Rightarrow> (string \<rightharpoonup> breaker) \<Rightarrow> (string \<rightharpoonup> breaker)" where
  "failed_call now cbs =
     snd (snd (executeWithCircuitBreaker ''parser'' now (Inl ''down'' :: string + nat) None cbs))"

definition tripped_parser :: "string \<rightharpoonup> breaker" where
  "tripped_parser = failed_call 2 (failed_call 1 (failed_call 0 parser_breakers))"





text \<open>
  Three lookups of the same word in flight at once, and the ids of the requests that
  arrive in a sequence of events.
\<close>

definition lookup_request :: "nat \<Rightarrow> string request" where
  "lookup_request i =
     \<lparr>rid = i, http_method = ''POST'', path = ''/api/debug-lookup'', body_text = None,
      body_word = Some ''neko''\<rparr>"

definition three_lookups :: "(string, string) dedup" where
  "three_lookups =
     dedup_run [Arrives 0 (lookup_request 1), Arrives 1 (lookup_request 2),
                Arrives 2 (lookup_request 3), Ends (lookup_request 1) ''found'']
       new_dedup"

fun arrivals :: "('j, 'resp) dedup_event list \<Rightarrow> nat list" where
  "arrivals [] = []"
| "arrivals (Arrives now req # es) = rid req # arrivals es"
| "arrivals (e # es) = arrivals es"

text \<open>
  The queries of a lookup that finds nothing: the exact query for the word and for the
  first five generated variants, then the fuzzy query.
\<close>

definition miss_queries :: "wanakana \<Rightarrow> ustring \<Rightarrow> query list" where
  "miss_queries wk word =
     map ExactQuery (word # take 5 (generateComprehensiveVariants wk word)) @ [FuzzyQuery word]"

text \<open>
  Concrete inputs: a \<open>wanakana\<close> for which no word is kana (true of Latin and of
  mixed-script words), a dictionary without entries, and the inflected word of the
  specification's scenario (\<open>tori-nozo-i-te\<close>, U+53D6 U+308A U+9664 U+3044 U+3066).
\<close>

definition no_kana :: wanakana where
  "no_kana = \<lparr>isHiragana = (\<lambda>w. False), isKatakana = (\<lambda>w. False), toKatakana = (\<lambda>w. w),
              toHiragana = (\<lambda>w. w)\<rparr>"

definition empty_db :: db where
  "empty_db = \<lparr>exact = (\<lambda>v. Inr None), fuzzy = (\<lambda>w. Inr []), entry = (\<lambda>i. Inr None)\<rparr>"

definition torinozoite :: ustring where
  "torinozoite = [0x53D6, 0x308A, 0x9664, 0x3044, 0x3066]"

text \<open>
  Two lookups of the unknown word \<open>zzz\<close> in a row: the first from 10 ms to 12 ms on a
  new pipeline, the second from 15 ms to 17 ms on the state the first one left.
\<close>

definition first_lookup :: "found option \<times> pipeline" where
  "first_lookup = getDefinitionAdvanced no_kana empty_db 10 12 (asc ''zzz'') new_pipeline"

definition second_lookup :: "found option \<times> pipeline" where
  "second_lookup = getDefinitionAdvanced no_kana empty_db 15 17 (asc ''zzz'') (snd first_lookup)"

text \<open>
  The two maps of a store hold the same keys, each once; and a store is within its
  capacity. \<open>plain_op\<close> holds of the operations other than \<open>import\<close> that use no
  empty string as a key (\<open>evictLRU\<close> tests the key it found for truthiness).
\<close>

definition keys_agree :: "'v lru \<Rightarrow> bool" where
  "keys_agree c =
     (distinct (map fst (cache c)) \<and> distinct (map fst (accessOrder c))
      \<and> fst ` set (cache c) = fst ` set (accessOrder c))"

definition within_capacity :: "'v lru \<Rightarrow> bool" where
  "within_capacity c =
     (keys_agree c \<and> length (cache c) \<le> maxSize c \<and> 0 < maxSize c
      \<and> [] \<notin> fst ` set (cache c))"

fun plain_op :: "nat \<times> 'v cache_op \<Rightarrow> bool" where
  "plain_op (now, Set k v customTTL) = (k \<noteq> [])"
| "plain_op (now, Preload entries) = ([] \<notin> fst ` set entries)"
| "plain_op (now, Import data) = False"
| "plain_op (now, other) = True"

section \<open>Results\<close>

subsection \<open>MultiLevelCache routing\<close>



subsection \<open>Maps in insertion order\<close>

lemma map_of_Map_set: "map_of (Map_set k v m) = (map_of m)(k \<mapsto> v)"
  by (induction m) (auto simp: fun_eq_iff)

lemma map_of_Map_delete: "map_of (Map_delete k m) = (map_of m)(k := None)"
  by (induction m) (auto simp: Map_delete_def fun_eq_iff)

lemmas cache_defs = lru_set_def lru_get_def new_lru_def evictLRU_def Map_has_def
  Map_delete_def isValid_def updateHitRate_def asc_def Let_def

subsection \<open>Hit-rate accounting\<close>

lemma counters_evictLRU: "counters (evictLRU c) = counters c"
  by (simp add: evictLRU_def counters_def Let_def split: option.splits prod.splits)

lemma counters_lru_set: "counters (lru_set now k v customTTL c) = counters c"
  using counters_evictLRU [of c] by (simp add: lru_set_def counters_def Let_def)

lemma counters_lru_delete: "counters (snd (lru_delete k c)) = counters c"
  by (simp add: lru_delete_def counters_def Let_def)

lemma counters_clear: "counters (clear c) = counters c"
  by (simp add: clear_def counters_def)

lemma counters_cleanup: "counters (snd (cleanup now c)) = counters c"
  by (simp add: cleanup_def counters_def Let_def)

lemma counters_preload: "counters (snd (preload now entries c)) = counters c"
  by (induction now entries c rule: preload.induct)
     (simp_all add: counters_lru_set case_prod_beta)

lemma counters_import_loop: "counters (snd (lru_import_loop now data c)) = counters c"
  by (induction now data c rule: lru_import_loop.induct)
     (simp_all add: Let_def counters_def case_prod_beta)

lemma counters_import: "counters (snd (lru_import now data c)) = counters c"
  using counters_import_loop [of now data c]
  by (simp add: lru_import_def counters_def case_prod_beta)

lemma counters_delete_keys: "counters (delete_keys ks c) = counters c"
  by (induction ks arbitrary: c) (simp_all add: counters_lru_delete)

lemma counters_optimize: "counters (snd (optimize r c)) = counters c"
  by (simp add: optimize_def Let_def counters_delete_keys)

lemma stats_updateHitRate:
  "hits (updateHitRate s) = hits s" "misses (updateHitRate s) = misses s"
  "hitRate (updateHitRate s) = percentage (hits s) (misses s)"
  by (simp_all add: updateHitRate_def percentage_def Let_def)

lemma counters_get:
  "\<exists>h m. counters (snd (lru_get now k c)) = (h, m, percentage h m)
        \<and> h + m = Suc (hits (stats c) + misses (stats c))"
proof (cases "fst (lru_get now k c)")
  case None
  then have "counters (snd (lru_get now k c))
      = (hits (stats c), misses (stats c) + 1, percentage (hits (stats c)) (misses (stats c) + 1))"
    by (auto simp: lru_get_def counters_def stats_updateHitRate split: option.splits if_splits)
  then show ?thesis by simp
next
  case (Some v)
  then have "counters (snd (lru_get now k c))
      = (hits (stats c) + 1, misses (stats c), percentage (hits (stats c) + 1) (misses (stats c)))"
    by (auto simp: lru_get_def counters_def stats_updateHitRate split: option.splits if_splits)
  then show ?thesis by simp
qed

lemma counters_apply_op_other:
  "\<not> is_get x \<Longrightarrow> counters (apply_op x c) = counters c"
  by (cases "(x, c)" rule: apply_op.cases)
     (simp_all add: counters_lru_set counters_lru_delete counters_clear counters_cleanup
        counters_preload counters_import counters_optimize)

lemma counters_run_ops:
  "counters c = (h, m, percentage h m) \<Longrightarrow>
   \<exists>h' m'. counters (run_ops ops c) = (h', m', percentage h' m')
          \<and> h' + m' = h + m + length (filter is_get ops)"
proof (induction ops arbitrary: c h m)
  case Nil
  then show ?case by simp
next
  case (Cons x xs)
  show ?case
  proof (cases "is_get x")
    case True
    then obtain now k where x: "x = (now, Get k)" by (cases x rule: is_get.cases) auto
    from counters_get [of now k c] obtain h1 m1 where
      g: "counters (snd (lru_get now k c)) = (h1, m1, percentage h1 m1)"
         "h1 + m1 = Suc (hits (stats c) + misses (stats c))" by blast
    have hm: "hits (stats c) = h" "misses (stats c) = m"
      using Cons.prems by (simp_all add: counters_def)
    from Cons.IH [of "snd (lru_get now k c)" h1 m1] g x hm show ?thesis by auto
  next
    case False
    with Cons.IH [of "apply_op x c" h m] Cons.prems show ?thesis
      by (simp add: counters_apply_op_other)
  qed
qed

lemma estimate_loop_returns:
  "(\<exists>n. estimate_loop js xs k = Inr n)
     \<longleftrightarrow> list_all (\<lambda>(key, it). value_length js (val it) \<noteq> None) xs"
  by (induction js xs k rule: estimate_loop.induct) (auto split: option.splits)

lemma getStats_returns:
  "(\<exists>r. getStats js c = Inr r)
     \<longleftrightarrow> list_all (\<lambda>(key, it). value_length js (val it) \<noteq> None) (cache c)"
proof -
  have "(\<exists>r. getStats js c = Inr r) \<longleftrightarrow> (\<exists>n. estimate_loop js (cache c) 0 = Inr n)"
    by (auto simp: getStats_def estimateMemoryUsage_def split: sum.splits)
  then show ?thesis by (simp add: estimate_loop_returns)
qed

text \<open>
  C3, as stated: the reported hit rate equals \<open>hits / (hits + misses)\<close>. After one
  \<open>set\<close> and one \<open>get\<close> of the same key there is one hit and no miss, the ratio is 1,
  and both the \<open>hitRate\<close> field and the value reported by \<open>getStats\<close> are 100.
\<close>

theorem hitRate_is_not_the_ratio:
  "hits (stats one_hit) = 1 \<and> misses (stats one_hit) = 0
   \<and> hitRate (stats one_hit) = 100
   \<and> reported_hitRate plain_json one_hit = Some 100
   \<and> hitRate (stats one_hit)
       \<noteq> of_nat (hits (stats one_hit)) / of_nat (hits (stats one_hit) + misses (stats one_hit))
   \<and> reported_hitRate plain_json one_hit
       \<noteq> Some (of_nat (hits (stats one_hit))
                 / of_nat (hits (stats one_hit) + misses (stats one_hit)))"
  by code_simp

text \<open>
  C3, amended. For every store as constructed and every sequence of operations on it
  with fewer than \<open>2^53\<close> \<open>get\<close> calls, \<open>hits + misses\<close> is the number of \<open>get\<close>
  calls in the sequence, and the \<open>hitRate\<close> field is the percentage
  \<open>(hits / (hits + misses)) * 100\<close> as double arithmetic gives it (0 when there was no
  \<open>get\<close>), not the ratio. \<open>getStats\<close> returns exactly when every stored value can be
  stringified, and the statistics it then reports have \<open>hits + misses\<close> equal to the
  number of \<open>get\<close> calls and \<open>hitRate\<close> equal to the percentage of the reported
  \<open>hits\<close> and \<open>misses\<close>, rounded to two decimals in double arithmetic
  (\<open>Math.round(hitRate * 100) / 100\<close>).
\<close>

theorem hitRate_is_percentage_of_gets:
  assumes "length (filter is_get ops) < 2 ^ 53"
    and "c = run_ops ops (new_lru maxSize0 ttl0)"
  shows "hits (stats c) + misses (stats c) = length (filter is_get ops)
   \<and> hitRate (stats c) =
        (if hits (stats c) + misses (stats c) = 0 then 0
         else fl (fl (of_nat (hits (stats c)) / of_nat (hits (stats c) + misses (stats c))) * 100))
   \<and> ((\<exists>r. getStats js c = Inr r)
        \<longleftrightarrow> list_all (\<lambda>(key, it). value_length js (val it) \<noteq> None) (cache c))
   \<and> (\<forall>r. getStats js c = Inr r \<longrightarrow>
          r_hits r + r_misses r = length (filter is_get ops)
        \<and> r_hitRate r =
            fl (of_int (Math_round (fl
              ((if r_hits r + r_misses r = 0 then 0
                else fl (fl (of_nat (r_hits r) / of_nat (r_hits r + r_misses r)) * 100)) * 100)))
              / 100))"
proof -
  have "counters (new_lru maxSize0 ttl0 :: 'a lru) = (0, 0, percentage 0 0)"
    by (simp add: counters_def new_lru_def percentage_def)
  from counters_run_ops [OF this, of ops] assms(2) obtain h m where
    hm: "counters c = (h, m, percentage h m)" "h + m = length (filter is_get ops)" by auto
  have reported: "r_hits r = h \<and> r_misses r = m \<and> r_hitRate r = round2 (percentage h m)"
    if "getStats js c = Inr r" for r
    using that hm(1) by (auto simp: getStats_def counters_def split: sum.splits)
  have first: "hits (stats c) + misses (stats c) = length (filter is_get ops)"
    using hm by (simp add: counters_def)
  have second: "hitRate (stats c) =
        (if hits (stats c) + misses (stats c) = 0 then 0
         else fl (fl (of_nat (hits (stats c)) / of_nat (hits (stats c) + misses (stats c))) * 100))"
    using hm by (auto simp: counters_def percentage_def)
  have fourth: "r_hits r + r_misses r = length (filter is_get ops)
        \<and> r_hitRate r =
            fl (of_int (Math_round (fl
              ((if r_hits r + r_misses r = 0 then 0
                else fl (fl (of_nat (r_hits r) / of_nat (r_hits r + r_misses r)) * 100)) * 100)))
              / 100)"
    if "getStats js c = Inr r" for r
    using reported [OF that] hm(2) by (auto simp: round2_def percentage_def)
  from first second getStats_returns [of js c] fourth show ?thesis by blast
qed

text \<open>
  Reads of one key repeated at one clock reading: a key held and not expired adds to the
  hits, a key not held adds to the misses, and neither changes the stored entries.
\<close>

lemma run_ops_append: "run_ops (xs @ ys) c = run_ops ys (run_ops xs c)"
  by (induction xs arbitrary: c) simp_all

lemma run_hits:
  "map_of (cache c) k = Some it \<Longrightarrow> now < expiry it \<Longrightarrow>
   cache (run_ops (replicate n (now, Get k)) c) = cache c
   \<and> hits (stats (run_ops (replicate n (now, Get k)) c)) = hits (stats c) + n
   \<and> misses (stats (run_ops (replicate n (now, Get k)) c)) = misses (stats c)"
proof (induction n arbitrary: c)
  case 0
  then show ?case by simp
next
  case (Suc n)
  let ?c' = "snd (lru_get now k c)"
  from Suc.prems have step: "cache ?c' = cache c" "hits (stats ?c') = hits (stats c) + 1"
    "misses (stats ?c') = misses (stats c)"
    by (simp_all add: lru_get_def isValid_def stats_updateHitRate)
  from Suc.IH [of ?c'] Suc.prems step show ?case by simp
qed

lemma run_misses:
  "map_of (cache c) k = None \<Longrightarrow>
   cache (run_ops (replicate n (now, Get k)) c) = cache c
   \<and> hits (stats (run_ops (replicate n (now, Get k)) c)) = hits (stats c)
   \<and> misses (stats (run_ops (replicate n (now, Get k)) c)) = misses (stats c) + n"
proof (induction n arbitrary: c)
  case 0
  then show ?case by simp
next
  case (Suc n)
  let ?c' = "snd (lru_get now k c)"
  from Suc.prems have step: "cache ?c' = cache c" "hits (stats ?c') = hits (stats c)"
    "misses (stats ?c') = misses (stats c) + 1"
    by (simp_all add: lru_get_def stats_updateHitRate)
  from Suc.IH [of ?c'] Suc.prems step show ?case by simp
qed

text \<open>
  At 23 hits in 160 reads the percentage held by the program is 14.374999999999998 and
  the value reported is the double of 14.37 (the exact quotient 14.375 would give 14.38).
\<close>

lemma many_gets_run:
  "hits (stats (run_ops many_gets (new_lru 2 1000))) = 23
   \<and> misses (stats (run_ops many_gets (new_lru 2 1000))) = 137
   \<and> length (filter is_get many_gets) = 160
   \<and> list_all (\<lambda>(key, it). value_length plain_json (val it) \<noteq> None)
        (cache (run_ops many_gets (new_lru 2 1000)))"
proof -
  let ?c1 = "lru_set 0 (asc ''a'') 7 None (new_lru 2 1000) :: nat lru"
  let ?c2 = "run_ops (replicate 23 (5, Get (asc ''a''))) ?c1"
  let ?c3 = "run_ops (replicate 137 (5, Get (asc ''b''))) ?c2"
  have c1: "cache ?c1 = [(asc ''a'', \<lparr>val = 7, expiry = 1000, created = 0, accessed = 0\<rparr>)]"
    "hits (stats ?c1) = 0" "misses (stats ?c1) = 0"
    by (simp_all add: cache_defs)
  have a: "map_of (cache ?c1) (asc ''a'')
      = Some \<lparr>val = 7, expiry = 1000, created = 0, accessed = 0\<rparr>"
    by (simp add: c1)
  have "(5::nat) < expiry \<lparr>val = 7::nat, expiry = 1000, created = 0, accessed = 0\<rparr>" by simp
  from run_hits [OF a this, of 23] c1
  have c2: "cache ?c2 = cache ?c1" "hits (stats ?c2) = 23" "misses (stats ?c2) = 0"
    by simp_all
  have b: "map_of (cache ?c2) (asc ''b'') = None"
    unfolding c2(1) c1(1) by (simp add: asc_def)
  from run_misses [OF b, of 137 5] c2
  have c3: "cache ?c3 = cache ?c1" "hits (stats ?c3) = 23" "misses (stats ?c3) = 137"
    by simp_all
  have run: "run_ops many_gets (new_lru 2 1000) = ?c3"
    by (simp add: many_gets_def run_ops_append)
  have n: "length (filter is_get many_gets) = 160"
    by (simp add: many_gets_def)
  from c3 c1 n show ?thesis
    by (simp add: run plain_json_def)
qed

lemma percentage_23_of_160:
  "fl (fl (23 / 160) * 100) = 8092405580431359 / 562949953421312
   \<and> fl (of_int (Math_round (fl (fl (fl (23 / 160) * 100) * 100))) / 100) = fl (1437 / 100)
   \<and> fl (1437 / 100) = 8089590830664253 / 562949953421312
   \<and> fl (1437 / 100) \<noteq> fl (1438 / 100)"
  by code_simp

theorem hitRate_is_percentage_witness:
  "hits (stats (run_ops many_gets (new_lru 2 1000)))
     + misses (stats (run_ops many_gets (new_lru 2 1000))) = 160
   \<and> hitRate (stats (run_ops many_gets (new_lru 2 1000)))
       = 8092405580431359 / 562949953421312
   \<and> reported_hitRate plain_json (run_ops many_gets (new_lru 2 1000))
       = Some (8089590830664253 / 562949953421312)"
proof -
  let ?c = "run_ops many_gets (new_lru 2 1000) :: nat lru"
  from many_gets_run have h: "hits (stats ?c) = 23" and m: "misses (stats ?c) = 137"
    and n: "length (filter is_get many_gets) = 160"
    and ok: "list_all (\<lambda>(key, it). value_length plain_json (val it) \<noteq> None) (cache ?c)"
    by blast+
  have few: "length (filter is_get many_gets) < 2 ^ 53" by (simp add: n)
  note t = hitRate_is_percentage_of_gets [OF few refl, of 2 1000 plain_json]
  from t ok obtain r where r: "getStats plain_json ?c = Inr r" by blast
  from t have total: "hits (stats ?c) + misses (stats ?c) = 160" by (simp add: n)
  from t h m have rate: "hitRate (stats ?c) = fl (fl (23 / 160) * 100)" by simp
  from t r have rr: "r_hits r + r_misses r = 160"
    and rh: "r_hitRate r =
            fl (of_int (Math_round (fl
              ((if r_hits r + r_misses r = 0 then 0
                else fl (fl (of_nat (r_hits r) / of_nat (r_hits r + r_misses r)) * 100)) * 100)))
              / 100)"
    by (simp_all add: n)
  have "r_hits r = 23"
    using r h by (auto simp: getStats_def split: sum.splits)
  with rr rh have "r_hitRate r = fl (of_int (Math_round (fl (fl (fl (23 / 160) * 100) * 100))) / 100)"
    by simp
  with percentage_23_of_160 have "r_hitRate r = 8089590830664253 / 562949953421312" by simp
  with r have rep: "reported_hitRate plain_json ?c = Some (8089590830664253 / 562949953421312)"
    by (simp add: reported_hitRate_def)
  from total rate percentage_23_of_160 rep show ?thesis by simp
qed

text \<open>
  The target size of \<open>optimize(0.58)\<close> on a store of capacity 50 is 28: the double
  product is just below 29.
\<close>

lemma optimize_target_in_doubles: "\<lfloor>fl (50 * fl (58 / 100))\<rfloor> = 28"
  by code_simp

subsection \<open>Capacity\<close>

text \<open>
  C4 at the failing input: \<open>import\<close> of two unexpired entries into an empty store of
  capacity 1 leaves two entries in the store. \<open>set\<close> evicts before it inserts;
  \<open>import\<close> writes to the entry map without looking at the capacity.
\<close>

theorem import_exceeds_maxSize:
  "maxSize imported_two = 1 \<and> length (cache imported_two) = 2
   \<and> size_s (stats imported_two) = 2"
  by (simp add: imported_two_def lru_import_def new_lru_def asc_def Let_def)

text \<open>
  A second way past the capacity: \<open>evictLRU\<close> deletes only \<open>if (oldestKey)\<close>, and the
  empty string is falsy, so an entry under the key \<open>""\<close> is never evicted.
\<close>

lemma empty_key_is_not_evicted:
  "(let c = lru_set 5 (asc ''b'') (2::nat) None (lru_set 0 [] 7 None (new_lru 1 1000))
    in maxSize c = 1 \<and> map fst (cache c) = [[], asc ''b''] \<and> evictions (stats c) = 0)"
  by (simp add: cache_defs)

lemma keys_Map_set:
  "map fst (Map_set k v m) = (if k \<in> fst ` set m then map fst m else map fst m @ [k])"
  by (induction m) auto

lemma dom_Map_set: "fst ` set (Map_set k v m) = insert k (fst ` set m)"
  by (induction m) auto

lemma distinct_Map_set: "distinct (map fst (Map_set k v m)) = distinct (map fst m)"
  by (simp add: keys_Map_set)

lemma length_Map_set:
  "length (Map_set k v m) = (if k \<in> fst ` set m then length m else Suc (length m))"
  by (induction m) auto

lemma dom_Map_delete: "fst ` set (Map_delete k m) = fst ` set m - {k}"
  by (auto simp: Map_delete_def)

lemma distinct_Map_delete: "distinct (map fst m) \<Longrightarrow> distinct (map fst (Map_delete k m))"
  by (simp add: Map_delete_def distinct_map_filter)

lemma length_Map_delete_le: "length (Map_delete k m) \<le> length m"
  by (simp add: Map_delete_def)

lemma length_Map_delete:
  "distinct (map fst m) \<Longrightarrow> k \<in> fst ` set m \<Longrightarrow> Suc (length (Map_delete k m)) = length m"
proof (induction m)
  case Nil
  then show ?case by simp
next
  case (Cons p m)
  show ?case
  proof (cases "fst p = k")
    case True
    with Cons.prems have "k \<notin> fst ` set m" by simp
    then have "filter (\<lambda>p. fst p \<noteq> k) m = m"
      by (auto simp: filter_id_conv)
    with True show ?thesis by (simp add: Map_delete_def)
  next
    case False
    with Cons show ?thesis by (simp add: Map_delete_def)
  qed
qed

lemma Map_has_keys: "Map_has k m \<longleftrightarrow> k \<in> fst ` set m"
  by (simp add: Map_has_def map_of_eq_None_iff)

lemma oldest_mem:
  "oldest xs best = Some p \<Longrightarrow> p \<in> set xs \<or> best = Some p"
  by (induction xs best rule: oldest.induct) (auto split: option.splits if_splits)

lemma oldest_None: "oldest xs best = None \<Longrightarrow> xs = [] \<and> best = None"
  by (induction xs best rule: oldest.induct) (auto split: option.splits if_splits)

lemmas key_simps = dom_Map_set distinct_Map_set dom_Map_delete distinct_Map_delete

lemma keys_agree_evictLRU: "keys_agree c \<Longrightarrow> keys_agree (evictLRU c)"
  by (auto simp: keys_agree_def evictLRU_def Let_def key_simps split: option.splits)

lemma keys_agree_lru_set: "keys_agree c \<Longrightarrow> keys_agree (lru_set now k v customTTL c)"
  using keys_agree_evictLRU [of c]
  by (auto simp: keys_agree_def lru_set_def Let_def key_simps)

lemma keys_agree_lru_get: "keys_agree c \<Longrightarrow> keys_agree (snd (lru_get now k c))"
proof (cases "map_of (cache c) k")
  case None
  assume "keys_agree c"
  with None show ?thesis by (simp add: keys_agree_def lru_get_def)
next
  case (Some it)
  assume a: "keys_agree c"
  from Some have "k \<in> fst ` set (cache c)"
    by (metis map_of_eq_None_iff option.distinct(1))
  with a have "k \<in> fst ` set (accessOrder c)" by (simp add: keys_agree_def)
  then have "insert k (fst ` set (accessOrder c)) = fst ` set (accessOrder c)" by auto
  with a Some show ?thesis
    by (simp add: keys_agree_def lru_get_def key_simps)
qed

lemma keys_agree_lru_delete: "keys_agree c \<Longrightarrow> keys_agree (snd (lru_delete k c))"
  by (auto simp: keys_agree_def lru_delete_def Let_def key_simps)

lemma keys_agree_clear: "keys_agree (clear c)"
  by (simp add: keys_agree_def clear_def)

lemma dom_filter_rest:
  "distinct (map fst m) \<Longrightarrow>
   fst ` set (filter (\<lambda>p. \<not> P p) m) = fst ` set m - fst ` set (filter P m)"
proof (induction m)
  case Nil
  then show ?case by simp
next
  case (Cons p m)
  then have ih: "fst ` set (filter (\<lambda>p. \<not> P p) m) = fst ` set m - fst ` set (filter P m)"
    and new: "fst p \<notin> fst ` set m"
    by simp_all
  from new have out: "fst p \<notin> fst ` set (filter P m)" "fst p \<notin> fst ` set (filter (\<lambda>p. \<not> P p) m)"
    by auto
  show ?case
  proof (cases "P p")
    case True
    with ih new out show ?thesis by auto
  next
    case False
    with ih new out show ?thesis by auto
  qed
qed

lemma keys_agree_cleanup: "keys_agree c \<Longrightarrow> keys_agree (snd (cleanup now c))"
proof -
  assume a: "keys_agree c"
  let ?P = "\<lambda>(k, it). now \<ge> expiry (it :: 'a item)"
  have d: "distinct (map fst (cache c))" using a by (simp add: keys_agree_def)
  have np: "(\<lambda>(k, it). \<not> now \<ge> expiry (it :: 'a item)) = (\<lambda>p. \<not> ?P p)"
    by auto
  have rest: "fst ` set (filter (\<lambda>p. \<not> ?P p) (cache c))
      = fst ` set (cache c) - fst ` set (filter ?P (cache c))"
    by (rule dom_filter_rest [OF d])
  have ao: "fst ` set (filter (\<lambda>(k, t). k \<notin> fst ` set (filter ?P (cache c))) (accessOrder c))
      = fst ` set (accessOrder c) - fst ` set (filter ?P (cache c))"
    by force
  from a rest ao show ?thesis
    by (simp add: keys_agree_def cleanup_def Let_def distinct_map_filter np)
qed


lemma keys_agree_preload: "keys_agree c \<Longrightarrow> keys_agree (snd (preload now entries c))"
  by (induction now entries c rule: preload.induct)
     (simp_all add: keys_agree_lru_set case_prod_beta)

lemma keys_agree_import_loop: "keys_agree c \<Longrightarrow> keys_agree (snd (lru_import_loop now data c))"
proof (induction now data c rule: lru_import_loop.induct)
  case (1 now c)
  then show ?case by simp
next
  case (2 now d data c)
  let ?c' = "c\<lparr>cache := Map_set (e_key d)
                    \<lparr>val = e_value d, expiry = e_expiry d, created = e_created d,
                     accessed = now\<rparr> (cache c),
                 accessOrder := Map_set (e_key d) now (accessOrder c)\<rparr>"
  from "2.prems" have "keys_agree ?c'" by (simp add: keys_agree_def key_simps)
  with 2 show ?case by (simp add: Let_def case_prod_beta)
qed

lemma keys_agree_import: "keys_agree c \<Longrightarrow> keys_agree (snd (lru_import now data c))"
  using keys_agree_import_loop [of c now data]
  by (simp add: lru_import_def case_prod_beta keys_agree_def)

lemma keys_agree_delete_keys: "keys_agree c \<Longrightarrow> keys_agree (delete_keys ks c)"
  by (induction ks arbitrary: c) (simp_all add: keys_agree_lru_delete)

lemma keys_agree_optimize: "keys_agree c \<Longrightarrow> keys_agree (snd (optimize r c))"
  by (simp add: optimize_def Let_def keys_agree_delete_keys)

lemma keys_agree_apply_op: "keys_agree c \<Longrightarrow> keys_agree (apply_op x c)"
  by (cases "(x, c)" rule: apply_op.cases)
     (simp_all add: keys_agree_lru_get keys_agree_lru_set keys_agree_lru_delete keys_agree_clear
        keys_agree_cleanup keys_agree_preload keys_agree_import keys_agree_optimize)

lemma keys_agree_run_ops: "keys_agree c \<Longrightarrow> keys_agree (run_ops ops c)"
  by (induction ops arbitrary: c) (simp_all add: keys_agree_apply_op)

text \<open>
  The second half of C4 holds for every sequence of operations, \<open>import\<close> included:
  the entry map and the access-order map have the same keys.
\<close>

lemma every_cache_key_has_access_time:
  "fst ` set (cache (run_ops ops (new_lru maxSize0 ttl0)))
     = fst ` set (accessOrder (run_ops ops (new_lru maxSize0 ttl0)))"
proof -
  have "keys_agree (new_lru maxSize0 ttl0 :: 'a lru)"
    by (simp add: keys_agree_def new_lru_def)
  from keys_agree_run_ops [OF this, of ops] show ?thesis
    by (simp add: keys_agree_def)
qed


text \<open>
  The first half of C4 holds for every operation but \<open>import\<close>, on a store of positive
  capacity whose keys are non-empty strings.
\<close>

lemma evictLRU_at_capacity:
  assumes "within_capacity c" "maxSize c \<le> length (cache c)"
  shows "within_capacity (evictLRU c) \<and> Suc (length (cache (evictLRU c))) = length (cache c)"
proof -
  from assms have ne: "cache c \<noteq> []" by (auto simp: within_capacity_def)
  from assms(1) have ka: "keys_agree c" and noempty: "[] \<notin> fst ` set (cache c)"
    and pos: "0 < maxSize c"
    by (simp_all add: within_capacity_def)
  from ka have dom: "fst ` set (cache c) = fst ` set (accessOrder c)"
    and d: "distinct (map fst (cache c))"
    by (simp_all add: keys_agree_def)
  from ne dom have ao: "accessOrder c \<noteq> []" by auto
  then obtain k t where old: "oldest (accessOrder c) None = Some (k, t)"
    using oldest_None [of "accessOrder c" None] by (cases "oldest (accessOrder c) None") auto
  from oldest_mem [OF old] have "(k, t) \<in> set (accessOrder c)" by simp
  then have "k \<in> fst ` set (accessOrder c)" by (rule rev_image_eqI) simp
  with dom have kin: "k \<in> fst ` set (cache c)" by simp
  have kne: "k \<noteq> []"
  proof
    assume "k = []"
    with kin noempty show False by simp
  qed
  have ev: "evictLRU c = c\<lparr>cache := Map_delete k (cache c),
                 accessOrder := Map_delete k (accessOrder c),
                 stats := (stats c)\<lparr>evictions := evictions (stats c) + 1,
                                     size_s := length (Map_delete k (cache c))\<rparr>\<rparr>"
    using ao old kne by (simp add: evictLRU_def Let_def)
  have len: "Suc (length (Map_delete k (cache c))) = length (cache c)"
    by (rule length_Map_delete [OF d kin])
  from keys_agree_evictLRU [OF ka] have ka': "keys_agree (evictLRU c)" .
  from len assms(1) have "length (Map_delete k (cache c)) \<le> maxSize c"
    by (simp add: within_capacity_def)
  then have le: "length (cache (evictLRU c)) \<le> maxSize (evictLRU c)"
    by (simp add: ev)
  have "fst ` set (cache (evictLRU c)) \<subseteq> fst ` set (cache c)"
    by (simp add: ev dom_Map_delete)
  with noempty have ne': "[] \<notin> fst ` set (cache (evictLRU c))" by blast
  have pos': "0 < maxSize (evictLRU c)" using pos by (simp add: ev)
  have len': "Suc (length (cache (evictLRU c))) = length (cache c)" using len by (simp add: ev)
  from ka' le ne' pos' len' show ?thesis
    unfolding within_capacity_def by blast
qed

lemma within_capacity_lru_set:
  assumes "within_capacity c" "k \<noteq> []"
  shows "within_capacity (lru_set now k v customTTL c)"
proof (cases "maxSize c \<le> length (cache c) \<and> \<not> Map_has k (cache c)")
  case True
  from evictLRU_at_capacity [OF assms(1)] True
  have wc: "within_capacity (evictLRU c)" and len: "Suc (length (cache (evictLRU c))) = length (cache c)"
    by simp_all
  have ms: "maxSize (evictLRU c) = maxSize c"
    by (simp add: evictLRU_def Let_def split: option.splits prod.splits)
  from assms(1) True have full: "length (cache c) = maxSize c"
    by (simp add: within_capacity_def)
  from keys_agree_lru_set [of c now k v customTTL] assms(1)
  have ka: "keys_agree (lru_set now k v customTTL c)" by (simp add: within_capacity_def)
  from wc len full ms assms(2) True ka show ?thesis
    by (simp add: within_capacity_def lru_set_def Let_def length_Map_set key_simps)
next
  case False
  from keys_agree_lru_set [of c now k v customTTL] assms(1)
  have ka: "keys_agree (lru_set now k v customTTL c)" by (simp add: within_capacity_def)
  from False assms ka show ?thesis
    by (auto simp: within_capacity_def lru_set_def Let_def length_Map_set key_simps Map_has_keys)
qed

lemma within_capacity_lru_get: "within_capacity c \<Longrightarrow> within_capacity (snd (lru_get now k c))"
  using keys_agree_lru_get [of c now k] length_Map_delete_le [of k "cache c"]
  by (auto simp: within_capacity_def lru_get_def key_simps split: option.splits)

lemma within_capacity_lru_delete: "within_capacity c \<Longrightarrow> within_capacity (snd (lru_delete k c))"
  using keys_agree_lru_delete [of c k] length_Map_delete_le [of k "cache c"]
  by (auto simp: within_capacity_def lru_delete_def Let_def key_simps)

lemma within_capacity_clear: "within_capacity c \<Longrightarrow> within_capacity (clear c)"
  using keys_agree_clear [of c] by (simp add: within_capacity_def clear_def)

lemma within_capacity_cleanup: "within_capacity c \<Longrightarrow> within_capacity (snd (cleanup now c))"
proof -
  assume a: "within_capacity c"
  let ?c' = "snd (cleanup now c)"
  have c': "cache ?c' = filter (\<lambda>(k, it). \<not> now \<ge> expiry it) (cache c)"
    "maxSize ?c' = maxSize c"
    by (simp_all add: cleanup_def Let_def)
  have "length (cache ?c') \<le> length (cache c)"
    unfolding c' by (rule length_filter_le)
  with a have le: "length (cache ?c') \<le> maxSize ?c'"
    by (simp add: within_capacity_def c'(2))
  have "fst ` set (cache ?c') \<subseteq> fst ` set (cache c)"
    unfolding c' by auto
  with a have ne: "[] \<notin> fst ` set (cache ?c')"
    unfolding within_capacity_def by blast
  from a have ka: "keys_agree ?c'" and pos: "0 < maxSize ?c'"
    by (simp_all add: within_capacity_def keys_agree_cleanup c'(2))
  from ka le ne pos show ?thesis
    unfolding within_capacity_def by blast
qed

lemma within_capacity_preload:
  "within_capacity c \<Longrightarrow> [] \<notin> fst ` set entries \<Longrightarrow>
   within_capacity (snd (preload now entries c))"
proof (induction now entries c rule: preload.induct)
  case (1 now c)
  then show ?case by simp
next
  case (2 now key v entries c)
  from "2.prems" have k: "key \<noteq> []" and rest: "[] \<notin> fst ` set entries" by auto
  show ?case
  proof (cases "has now key c")
    case True
    with 2 rest show ?thesis by simp
  next
    case False
    from within_capacity_lru_set [OF "2.prems"(1) k]
    have "within_capacity (lru_set now key v None c)" .
    with 2 False rest show ?thesis by (simp add: case_prod_beta)
  qed
qed

lemma within_capacity_delete_keys: "within_capacity c \<Longrightarrow> within_capacity (delete_keys ks c)"
  by (induction ks arbitrary: c) (simp_all add: within_capacity_lru_delete)

lemma within_capacity_optimize: "within_capacity c \<Longrightarrow> within_capacity (snd (optimize r c))"
  by (simp add: optimize_def Let_def within_capacity_delete_keys)

lemma within_capacity_apply_op:
  "within_capacity c \<Longrightarrow> plain_op x \<Longrightarrow> within_capacity (apply_op x c)"
  by (cases "(x, c)" rule: apply_op.cases)
     (simp_all add: within_capacity_lru_get within_capacity_lru_set within_capacity_lru_delete
        within_capacity_clear within_capacity_cleanup within_capacity_preload
        within_capacity_optimize)

lemma within_capacity_run_ops:
  "within_capacity c \<Longrightarrow> list_all plain_op ops \<Longrightarrow> within_capacity (run_ops ops c)"
  by (induction ops arbitrary: c) (simp_all add: within_capacity_apply_op)

lemma size_within_maxSize_without_import:
  assumes "0 < maxSize0" "list_all plain_op ops"
  shows "length (cache (run_ops ops (new_lru maxSize0 ttl0)))
           \<le> maxSize (run_ops ops (new_lru maxSize0 ttl0))"
proof -
  have "within_capacity (new_lru maxSize0 ttl0 :: 'a lru)"
    using assms(1) by (simp add: within_capacity_def keys_agree_def new_lru_def)
  from within_capacity_run_ops [OF this assms(2)] show ?thesis
    by (simp add: within_capacity_def)
qed

subsection \<open>The eviction scenario\<close>

text \<open>
  C6 at the failing input: the seven calls run within one millisecond, so every
  \<open>Date.now()\<close> reads the same value. The access times of "a" and "b" are then equal,
  the scan of \<open>evictLRU\<close> keeps the first key of the access-order map, which is "a" (its
  position dates from its insertion; \<open>get\<close> only rewrote its time), and "a" is evicted:
  \<open>Get("b")\<close> is a hit returning 2 and \<open>Get("a")\<close> is a miss.
\<close>

theorem lru_scenario_within_one_millisecond:
  "map fst (cache (lru_scenario 0 0 0 0)) = [asc ''b'', asc ''c'']
   \<and> three_gets 0 0 0 (lru_scenario 0 0 0 0) = (Some 2, None, Some 3)"
  by (simp add: lru_scenario_def three_gets_def cache_defs)

text \<open>
  When the clock has advanced between \<open>Set("b",2)\<close> and \<open>Get("a")\<close>, and the reads come
  before the entries expire, the scenario runs as the specification says.
\<close>

lemma lru_scenario_clock_advancing:
  assumes "t1 \<le> t2" "t2 < t3" "t3 \<le> t4" "t4 \<le> t5" "t5 \<le> t6" "t6 \<le> t7"
    "t6 < t1 + 1000" "t7 < t4 + 1000"
  shows "map fst (cache (lru_scenario t1 t2 t3 t4)) = [asc ''a'', asc ''c'']
   \<and> three_gets t5 t6 t7 (lru_scenario t1 t2 t3 t4) = (None, Some 1, Some 3)"
  using assms by (simp add: lru_scenario_def three_gets_def cache_defs)

subsection \<open>Circuit breaker\<close>

lemmas breaker_defs = cb_call_def breaker_execute_def short_circuits_def cb_before_def
  cb_after_success_def cb_after_failure_def Let_def

lemmas breaker_new_defs = small_breaker_def new_breaker_def spread_over_def or_default_def

lemma breaker_ok_new: "breaker_ok (new_breaker options)"
  by (simp add: breaker_ok_def new_breaker_def)

lemma breaker_ok_call: "breaker_ok b \<Longrightarrow> breaker_ok (cb_call c b)"
  by (cases c; cases "state b")
     (auto simp: breaker_ok_def breaker_defs split: option.splits)

lemma breaker_ok_run: "breaker_ok b \<Longrightarrow> breaker_ok (cb_run cs b)"
  by (induction cs arbitrary: b) (simp_all add: breaker_ok_call)

lemma config_call: "config (cb_call c b) = config b"
  by (cases c) (auto simp: breaker_defs split: option.splits)

lemma config_run: "config (cb_run cs b) = config b"
  by (induction cs arbitrary: b) (simp_all add: config_call)

text \<open>
  The breaker after a call depends on the outcome of the operation and not on the
  fallback, so \<open>cb_call\<close> describes every call.
\<close>

lemma breaker_after_call:
  "snd (snd (breaker_execute serviceName now operation fallback b))
     = cb_call (now, case operation of Inl e \<Rightarrow> False | Inr r \<Rightarrow> True) b"
  by (simp add: breaker_defs split: option.splits sum.splits)

text \<open>
  C2 says that an intervening success resets the consecutive-failure count, so that the
  breaker opens only on \<open>failureThreshold\<close> failures in a row; the code's success path
  carries the comment \<open>// Success - reset circuit breaker\<close>. The reset is guarded by
  \<open>breaker.state === 'HALF_OPEN'\<close>, so a success while \<open>CLOSED\<close> resets nothing. On a
  breaker with \<open>failureThreshold\<close> 2, a failing call, a successful call and a failing
  call: the counter is still 1 after the success, and the second failure, which follows
  a success, opens the breaker. (\<open>lastFailureTime\<close> and \<open>monitoringPeriod\<close> are written
  and never read, so no failure is ever forgotten by age either.)
\<close>

theorem success_while_closed_keeps_failure_count:
  "state failure_then_success = CLOSED \<and> failures failure_then_success = 1
   \<and> state (cb_call (2, False) failure_then_success) = OPEN"
  by (simp add: failure_then_success_def breaker_defs breaker_new_defs)

text \<open>
  What the code does on calls that run one after the other. Let \<open>b\<close> be a breaker as
  created and then used by any sequence of such calls. Between calls \<open>b\<close> is \<open>CLOSED\<close>
  or \<open>OPEN\<close>. While it is \<open>CLOSED\<close>, a success changes nothing (the failure counter
  counts every failure since creation or since the last successful probe), and a failure
  adds 1 to the counter and opens the breaker exactly when the counter has then reached
  \<open>failureThreshold\<close>, with \<open>nextAttempt = now + resetTimeout\<close>. While it is \<open>OPEN\<close>,
  \<open>nextAttempt\<close> is set, and a call at or after it moves the breaker to \<open>HALF_OPEN\<close> and
  attempts the operation; the success of that probe closes the breaker with the counter
  at 0, its failure opens it again with \<open>nextAttempt = now + resetTimeout\<close>.
\<close>

theorem breaker_transitions:
  fixes operation :: "'e + 'a"
  assumes b: "b = cb_run cs (new_breaker options)"
  shows
    "state b \<noteq> HALF_OPEN
   \<and> (state b = CLOSED \<longrightarrow>
        cb_call (now, True) b = b
      \<and> failures (cb_call (now, False) b) = failures b + 1
      \<and> state (cb_call (now, False) b)
          = (if failureThreshold (config b) \<le> failures b + 1 then OPEN else CLOSED)
      \<and> (state (cb_call (now, False) b) = OPEN \<longrightarrow>
           nextAttempt (cb_call (now, False) b) = Some (now + resetTimeout (config b))))
   \<and> (state b = OPEN \<longrightarrow>
        (\<exists>t. nextAttempt b = Some t) \<and> failureThreshold (config b) \<le> failures b)
   \<and> (state b = OPEN \<and> nextAttempt b = Some t \<and> t \<le> now \<longrightarrow>
        state (cb_before now b) = HALF_OPEN
      \<and> OperationCalled \<in> set (fst (snd (breaker_execute serviceName now operation fallback b)))
      \<and> state (cb_call (now, True) b) = CLOSED \<and> failures (cb_call (now, True) b) = 0
      \<and> state (cb_call (now, False) b) = OPEN
      \<and> nextAttempt (cb_call (now, False) b) = Some (now + resetTimeout (config b)))"
proof -
  have ok: "breaker_ok b"
    unfolding b by (rule breaker_ok_run [OF breaker_ok_new])
  show ?thesis
  proof (cases "state b")
    case CLOSED
    then show ?thesis by (simp add: breaker_defs)
  next
    case OPEN
    with ok show ?thesis
      by (auto simp: breaker_ok_def breaker_defs split: option.splits sum.splits)
  next
    case HALF_OPEN
    with ok show ?thesis by (simp add: breaker_ok_def)
  qed
qed

theorem breaker_transitions_witness:
  "state small_breaker = CLOSED
   \<and> cb_call (7, True) small_breaker = small_breaker
   \<and> failures (cb_call (7, False) small_breaker) = 1
   \<and> state (cb_call (7, False) small_breaker) = CLOSED
   \<and> state (cb_run [(0, False), (1, True), (2, False)] small_breaker) = OPEN
   \<and> nextAttempt (cb_run [(0, False), (1, True), (2, False)] small_breaker) = Some 102
   \<and> state (cb_before 102 (cb_run [(0, False), (1, True), (2, False)] small_breaker)) = HALF_OPEN
   \<and> OperationCalled
        \<in> set (fst (snd (breaker_execute ''svc'' 102 (Inr 5 :: string + nat) None
                            (cb_run [(0, False), (1, True), (2, False)] small_breaker))))
   \<and> state (cb_call (102, True) (cb_run [(0, False), (1, True), (2, False)] small_breaker))
        = CLOSED
   \<and> failures (cb_call (102, True) (cb_run [(0, False), (1, True), (2, False)] small_breaker))
        = 0
   \<and> state (cb_call (102, False) (cb_run [(0, False), (1, True), (2, False)] small_breaker))
        = OPEN
   \<and> nextAttempt (cb_call (102, False) (cb_run [(0, False), (1, True), (2, False)] small_breaker))
        = Some 202"
proof -
  have closed: "small_breaker = cb_run [] (new_breaker
      \<lparr>o_failureThreshold = Some 2, o_resetTimeout = Some 100, o_monitoringPeriod = None\<rparr>)"
    by (simp add: small_breaker_def)
  have opened: "cb_run [(0, False), (1, True), (2, False)] small_breaker
      = cb_run [(0, False), (1, True), (2, False)] (new_breaker
          \<lparr>o_failureThreshold = Some 2, o_resetTimeout = Some 100, o_monitoringPeriod = None\<rparr>)"
    by (simp add: small_breaker_def)
  have s1: "state small_breaker = CLOSED"
    by (simp add: breaker_new_defs)
  have s2: "state (cb_run [(0, False), (1, True), (2, False)] small_breaker) = OPEN"
    "nextAttempt (cb_run [(0, False), (1, True), (2, False)] small_breaker) = Some 102"
    "config (cb_run [(0, False), (1, True), (2, False)] small_breaker) = config small_breaker"
    by (simp_all add: breaker_defs breaker_new_defs)
  have c: "failureThreshold (config small_breaker) = 2" "resetTimeout (config small_breaker) = 100"
    "failures small_breaker = 0"
    by (simp_all add: breaker_new_defs)
  from breaker_transitions [OF closed, where now = 7 and t = 0 and serviceName = "''svc''"
      and operation = "Inr 5 :: string + nat" and fallback = None] s1 c
  have first: "cb_call (7, True) small_breaker = small_breaker
     \<and> failures (cb_call (7, False) small_breaker) = 1
     \<and> state (cb_call (7, False) small_breaker) = CLOSED"
    by simp
  from breaker_transitions [OF opened, where now = 102 and t = 102 and serviceName = "''svc''"
      and operation = "Inr 5 :: string + nat" and fallback = None] s2 c
  have second: "state (cb_before 102 (cb_run [(0, False), (1, True), (2, False)] small_breaker))
        = HALF_OPEN
   \<and> OperationCalled
        \<in> set (fst (snd (breaker_execute ''svc'' 102 (Inr 5 :: string + nat) None
                            (cb_run [(0, False), (1, True), (2, False)] small_breaker))))
   \<and> state (cb_call (102, True) (cb_run [(0, False), (1, True), (2, False)] small_breaker))
        = CLOSED
   \<and> failures (cb_call (102, True) (cb_run [(0, False), (1, True), (2, False)] small_breaker))
        = 0
   \<and> state (cb_call (102, False) (cb_run [(0, False), (1, True), (2, False)] small_breaker))
        = OPEN
   \<and> nextAttempt (cb_call (102, False) (cb_run [(0, False), (1, True), (2, False)] small_breaker))
        = Some 202"
    by simp
  from s1 s2 first second show ?thesis by blast
qed

text \<open>
  Calls that overlap. The state is checked before the \<open>await\<close> and updated after it, so
  a second call can start while a probe is pending. On the breaker opened above (threshold
  2, \<open>nextAttempt\<close> 102): the probe starts at 102 and moves the breaker to \<open>HALF_OPEN\<close>; a
  second call starts at 103, finds \<open>HALF_OPEN\<close>, is attempted and succeeds, which closes
  the breaker with the counter at 0; then the probe fails, which only brings the counter
  to 1. The failed probe leaves the breaker \<open>CLOSED\<close>.
\<close>

lemma failed_probe_overlapped_by_a_success_leaves_breaker_closed:
  "state (cb_before 102 (cb_run [(0, False), (1, True), (2, False)] small_breaker)) = HALF_OPEN
   \<and> \<not> short_circuits 103
        (cb_before 102 (cb_run [(0, False), (1, True), (2, False)] small_breaker))
   \<and> state (cb_after_success (cb_before 103
        (cb_before 102 (cb_run [(0, False), (1, True), (2, False)] small_breaker)))) = CLOSED
   \<and> state (cb_after_failure 102 (cb_after_success (cb_before 103
        (cb_before 102 (cb_run [(0, False), (1, True), (2, False)] small_breaker))))) = CLOSED
   \<and> failures (cb_after_failure 102 (cb_after_success (cb_before 103
        (cb_before 102 (cb_run [(0, False), (1, True), (2, False)] small_breaker))))) = 1"
  by (simp add: breaker_defs breaker_new_defs)

text \<open>
  C8. A call made while the breaker is \<open>OPEN\<close> and the clock is before \<open>nextAttempt\<close>
  does not attempt the guarded operation and leaves every breaker as it was: with a
  fallback the result is the fallback's, without one the call fails with the
  service-unavailable error.
\<close>

theorem open_breaker_short_circuits:
  assumes "cbs serviceName = Some b" "state b = OPEN" "nextAttempt b = Some t" "now < t"
  shows "executeWithCircuitBreaker serviceName now operation fallback cbs =
           (case fallback of
              Some f \<Rightarrow> (call_fallback f, [FallbackCalled], cbs)
            | None \<Rightarrow> (Inl (Unavailable serviceName), [], cbs))
       \<and> OperationCalled
           \<notin> set (fst (snd (executeWithCircuitBreaker serviceName now operation fallback cbs)))"
  using assms
  by (auto simp: executeWithCircuitBreaker_def breaker_execute_def short_circuits_def
           map_upd_triv split: option.splits)

theorem open_breaker_short_circuits_witness:
  "executeWithCircuitBreaker ''parser'' 10 (Inr 1 :: string + nat) None tripped_parser
     = (Inl (Unavailable ''parser''), [], tripped_parser)
   \<and> executeWithCircuitBreaker ''parser'' 10 (Inr 1 :: string + nat) (Some (Inr 5)) tripped_parser
     = (Inr 5, [FallbackCalled], tripped_parser)"
proof -
  obtain b where h: "tripped_parser ''parser'' = Some b" "state b = OPEN"
    "nextAttempt b = Some 30002"
    by (simp add: tripped_parser_def failed_call_def parser_breakers_def
          createCircuitBreaker_def executeWithCircuitBreaker_def breaker_defs new_breaker_def
          spread_over_def or_default_def)
  have before: "(10::nat) < 30002" by simp
  note short = open_breaker_short_circuits [where cbs = tripped_parser
      and serviceName = "''parser''" and operation = "Inr 1 :: string + nat", OF h before]
  from short [of None] short [of "Some (Inr 5)"]
  show ?thesis
    by (simp add: call_fallback_def)
qed

subsection \<open>Batch flush\<close>





subsection \<open>Request deduplication\<close>

lemmas dedup_defs = dedup_middleware_def dedup_end_def dedup_sweep_def generateRequestKey_def
  extractCriticalParams_def new_dedup_def lookup_request_def Map_delete_def Let_def

text \<open>
  C7 at the failing input: three requests with the same signature arrive while the
  first is being handled, and the handler of the first then sends its response. Only
  the first request is passed on to its handler, and only the first receives a response:
  the other two have registered callbacks on the promise of the first, which nothing
  settles, and its queue entry is gone.
\<close>

theorem coalesced_requests_are_left_waiting:
  "passed_on three_lookups = [1] \<and> responses three_lookups = [(1, ''found'')]
   \<and> waiting three_lookups = [(2, 1), (3, 1)] \<and> requestQueue three_lookups = []"
  by (simp add: three_lookups_def dedup_defs)

text \<open>
  In every run in which each request arrives once, no request that was coalesced onto
  another one's promise ever has a response.
\<close>

lemma dedup_step_inv:
  assumes "fst ` set (waiting s) \<inter> set (passed_on s) = {}"
    "fst ` set (responses s) \<subseteq> set (passed_on s)"
    "(fst ` set (waiting s) \<union> set (passed_on s)) \<inter> set (arrivals (e # es)) = {}"
    "distinct (arrivals (e # es))"
  shows "fst ` set (waiting (dedup_step e s)) \<inter> set (passed_on (dedup_step e s)) = {}
    \<and> fst ` set (responses (dedup_step e s)) \<subseteq> set (passed_on (dedup_step e s))
    \<and> (fst ` set (waiting (dedup_step e s)) \<union> set (passed_on (dedup_step e s)))
         \<inter> set (arrivals es) = {}
    \<and> distinct (arrivals es)"
  using assms
  by (cases e)
     (auto simp: dedup_middleware_def dedup_end_def dedup_sweep_def Let_def
           split: option.splits)

lemma dedup_run_inv:
  assumes "fst ` set (waiting s) \<inter> set (passed_on s) = {}"
    "fst ` set (responses s) \<subseteq> set (passed_on s)"
    "(fst ` set (waiting s) \<union> set (passed_on s)) \<inter> set (arrivals es) = {}"
    "distinct (arrivals es)"
  shows "fst ` set (waiting (dedup_run es s)) \<inter> fst ` set (responses (dedup_run es s)) = {}"
  using assms
proof (induction es arbitrary: s)
  case Nil
  then show ?case by auto
next
  case (Cons e es)
  from dedup_step_inv [OF Cons.prems]
  show ?case by (simp add: Cons.IH)
qed

lemma coalesced_requests_get_no_response:
  "distinct (arrivals es) \<Longrightarrow>
   fst ` set (waiting (dedup_run es new_dedup))
     \<inter> fst ` set (responses (dedup_run es new_dedup)) = {}"
  by (rule dedup_run_inv) (simp_all add: new_dedup_def)

subsection \<open>Candidate generation\<close>

lemma distinct_Set_add: "distinct xs \<Longrightarrow> distinct (Set_add x xs)"
  by (simp add: Set_add_def)

lemma distinct_add_all: "distinct xs \<Longrightarrow> distinct (add_all new xs)"
  unfolding add_all_def by (induction new arbitrary: xs) (simp_all add: distinct_Set_add)

lemmas generate_defs = generateComprehensiveVariants_def direct_candidates_def
  kana_candidates_def inflection_candidates_def particle_candidates_def nan_candidates_def
  nna_candidates_def comprehensiveVariantMappings_def reverseVariantMappings_def
  reverse_adds_def endsWith_def startsWith_def slice_end_def particleCombinations_def
  compound_candidates_def match_ri_def match_before_def dots_def lineTerminator_def
  add_all_def Set_add_def

text \<open>
  C9. Candidate generation is a function of the query string alone (given the kana
  functions of \<open>wanakana\<close>): it reads the two constant tables and the word, takes no
  cache, no dictionary store and no other state, and returns none, so two calls on the
  same word return the same ordered list and no query is issued. For every query string
  the list it returns has no duplicates and no empty string.
\<close>

theorem generated_variants_distinct_and_nonempty:
  "distinct (generateComprehensiveVariants wk word)
   \<and> [] \<notin> set (generateComprehensiveVariants wk word)"
  by (simp add: generateComprehensiveVariants_def distinct_add_all)

theorem generated_variants_witness:
  "distinct (generateComprehensiveVariants no_kana torinozoite)
   \<and> [] \<notin> set (generateComprehensiveVariants no_kana torinozoite)
   \<and> take 5 (generateComprehensiveVariants no_kana torinozoite)
       = [torinozoite, [0x53D6, 0x308A, 0x9664, 0x304F], [0x53D6, 0x308A, 0x9664, 0x3044],
          [0x3066], [0x53D6, 0x308A, 0x9664, 0x304B]]
   \<and> generateComprehensiveVariants no_kana [] = particleCombinations"
  using generated_variants_distinct_and_nonempty [of no_kana torinozoite]
  by (simp add: generate_defs no_kana_def torinozoite_def)

subsection \<open>Negative caching\<close>

lemma exact_tier_all_miss:
  "(\<And>v. exact d v = Inr None) \<Longrightarrow>
   exact_tier d now word vs s = (Miss, s\<lparr>queries := queries s @ map ExactQuery vs\<rparr>)"
  by (induction vs arbitrary: s) simp_all

lemma ttl_evictLRU: "ttl (evictLRU c) = ttl c"
  by (simp add: evictLRU_def Let_def split: option.splits prod.splits)

lemma lru_set_lookup:
  "map_of (cache (lru_set now key v None c)) key
     = Some \<lparr>val = v, expiry = now + ttl c, created = now, accessed = now\<rparr>"
  by (simp add: lru_set_def Let_def map_of_Map_set ttl_evictLRU)

lemma ttl_lru_get: "ttl (snd (lru_get now key c)) = ttl c"
  by (simp add: lru_get_def split: option.splits)

lemma mlc_get_definition:
  "mlc_get now key ''definition'' m
     = (fst (lru_get now key (definitionCache m)),
        m\<lparr>definitionCache := snd (lru_get now key (definitionCache m))\<rparr>)"
  by (simp add: mlc_get_def getCache_def putCache_def case_prod_beta)

lemma mlc_set_definition:
  "mlc_set now key v ''definition'' customTTL m
     = m\<lparr>definitionCache := lru_set now key v customTTL (definitionCache m)\<rparr>"
  by (simp add: mlc_set_def getCache_def putCache_def)

text \<open>
  A lookup of a word without a match in any tier, when the cache returns no definition
  for it (a miss, or a hit on the stored \<open>null\<close>): it issues all its queries, stores
  \<open>null\<close> under the word and returns \<open>null\<close>.
\<close>

lemma lookup_without_cached_definition:
  assumes "particleDefinitions word = None" "\<And>v. exact d v = Inr None"
    "fuzzy d word = Inr []"
    "fst (lru_get now word (definitionCache (multiLevelCache s))) \<in> {None, Some None}"
  shows "getDefinitionAdvanced wk d now later word s =
     (None,
      \<lparr>multiLevelCache = (multiLevelCache s)
         \<lparr>definitionCache :=
            lru_set later word None None
              (snd (lru_get now word (definitionCache (multiLevelCache s))))\<rparr>,
       queries = queries s @ miss_queries wk word\<rparr>)"
  using assms
  by (auto simp: getDefinitionAdvanced_def mlc_get_definition mlc_set_definition
        exact_tier_all_miss cache_absent_def miss_queries_def Let_def)

text \<open>
  C1 on the code. Take a word without a match in any tier (no built-in particle entry,
  no exact row for any string, no fuzzy row), not in the definition cache, looked up
  twice, the second time before the entry written by the first expires. The first
  lookup returns not-found and stores the marker (\<open>null\<close>) under the word, as the claim
  says. The second lookup reads the marker from the cache as a hit, and then, because
  the value read is falsy, goes on as after a miss: it returns not-found after issuing
  the same queries as the first lookup again (the exact query for the word and the first
  five variants, and the fuzzy query), where the claim says it issues none.
\<close>

theorem second_lookup_of_unknown_word_queries_again:
  assumes nomatch: "particleDefinitions word = None" "\<forall>v. exact d v = Inr None"
      "fuzzy d word = Inr []"
    and cold: "map_of (cache (definitionCache (multiLevelCache s0))) word = None"
    and fresh: "t2 < later1 + ttl (definitionCache (multiLevelCache s0))"
    and first: "getDefinitionAdvanced wk d t1 later1 word s0 = (r1, s1)"
    and second: "getDefinitionAdvanced wk d t2 later2 word s1 = (r2, s2)"
  shows "r1 = None \<and> r2 = None
     \<and> map_of (cache (definitionCache (multiLevelCache s1))) word
         = Some \<lparr>val = None, expiry = later1 + ttl (definitionCache (multiLevelCache s0)),
                 created = later1, accessed = later1\<rparr>
     \<and> fst (lru_get t2 word (definitionCache (multiLevelCache s1))) = Some None
     \<and> queries s1 = queries s0
         @ map ExactQuery (word # take 5 (generateComprehensiveVariants wk word))
         @ [FuzzyQuery word]
     \<and> queries s2 = queries s1
         @ map ExactQuery (word # take 5 (generateComprehensiveVariants wk word))
         @ [FuzzyQuery word]"
proof -
  let ?c0 = "definitionCache (multiLevelCache s0)"
  have ex: "\<And>v. exact d v = Inr None" using nomatch(2) by simp
  have g1: "fst (lru_get t1 word ?c0) \<in> {None, Some None}"
    using cold by (simp add: lru_get_def)
  note l1 = lookup_without_cached_definition [OF nomatch(1) ex nomatch(3) g1, of wk later1]
  from l1 first have r1: "r1 = None" and s1: "s1 =
      \<lparr>multiLevelCache = (multiLevelCache s0)
         \<lparr>definitionCache := lru_set later1 word None None (snd (lru_get t1 word ?c0))\<rparr>,
       queries = queries s0 @ miss_queries wk word\<rparr>"
    by simp_all
  have marker: "map_of (cache (definitionCache (multiLevelCache s1))) word
      = Some \<lparr>val = None, expiry = later1 + ttl ?c0, created = later1, accessed = later1\<rparr>"
    by (simp add: s1 lru_set_lookup ttl_lru_get)
  have hit: "fst (lru_get t2 word (definitionCache (multiLevelCache s1))) = Some None"
    using fresh by (simp add: lru_get_def marker isValid_def)
  then have g2: "fst (lru_get t2 word (definitionCache (multiLevelCache s1))) \<in> {None, Some None}"
    by simp
  note l2 = lookup_without_cached_definition [OF nomatch(1) ex nomatch(3) g2, of wk later2]
  from l2 second have r2: "r2 = None" and s2: "queries s2 = queries s1 @ miss_queries wk word"
    by auto
  from r1 r2 marker hit s1 s2 show ?thesis
    by (simp add: miss_queries_def)
qed

lemma variants_zzz:
  "take 5 (generateComprehensiveVariants no_kana (asc ''zzz''))
     = [asc ''zzz'', asc ''zzz'' @ [k_mo], asc ''zzz'' @ [k_ha], asc ''zzz'' @ [k_ga],
        asc ''zzz'' @ [k_wo]]"
  by (simp add: generate_defs no_kana_def asc_def)

lemma particle_zzz: "particleDefinitions (asc ''zzz'') = None"
  by (simp add: particleDefinitions_def particle_table_def object_prototype_members_def asc_def)

theorem second_lookup_witness:
  "fst first_lookup = None \<and> fst second_lookup = None
   \<and> fst (lru_get 15 (asc ''zzz'') (definitionCache (multiLevelCache (snd first_lookup))))
       = Some None
   \<and> queries (snd first_lookup) =
       [ExactQuery (asc ''zzz''), ExactQuery (asc ''zzz''), ExactQuery (asc ''zzz'' @ [k_mo]),
        ExactQuery (asc ''zzz'' @ [k_ha]), ExactQuery (asc ''zzz'' @ [k_ga]),
        ExactQuery (asc ''zzz'' @ [k_wo]), FuzzyQuery (asc ''zzz'')]
   \<and> queries (snd second_lookup) = queries (snd first_lookup) @ queries (snd first_lookup)"
proof -
  have first: "getDefinitionAdvanced no_kana empty_db 10 12 (asc ''zzz'') new_pipeline
      = (fst first_lookup, snd first_lookup)"
    by (simp add: first_lookup_def)
  have second: "getDefinitionAdvanced no_kana empty_db 15 17 (asc ''zzz'') (snd first_lookup)
      = (fst second_lookup, snd second_lookup)"
    by (simp add: second_lookup_def)
  have h: "\<forall>v. exact empty_db v = Inr None" "fuzzy empty_db (asc ''zzz'') = Inr []"
    "map_of (cache (definitionCache (multiLevelCache new_pipeline))) (asc ''zzz'') = None"
    "15 < 12 + ttl (definitionCache (multiLevelCache new_pipeline))"
    "queries new_pipeline = []"
    by (simp_all add: empty_db_def new_pipeline_def new_mlc_def new_lru_def)
  from second_lookup_of_unknown_word_queries_again
         [OF particle_zzz h(1) h(2) h(3) h(4) first second]
  show ?thesis
    by (simp add: h(5) variants_zzz)
qed

end
